theory Spec2Isabelle
  imports Main "HOL-Library.Word" "HOL-Library.Signed_Division"
begin

unbundle bit_operations_syntax

section \<open>Data model of jvm.c\<close>

text \<open>
  The C integer types of the interpreter. An \<open>int32_t\<close> is a 32-bit word; \<open>sint\<close> reads
  it as the signed value. The arithmetic of \<open>int32_t\<close> is what the compiled code does
  on the machine: \<open>+\<close>, \<open>-\<close>, \<open>*\<close> and unary \<open>-\<close> are the two's complement operations,
  which wrap around; \<open><<\<close> and \<open>>>\<close> shift by the count modulo 32, \<open><<\<close> dropping the
  bits shifted out and \<open>>>\<close> on \<open>int32_t\<close> copying the sign bit; \<open>INT_MIN / -1\<close> traps.
  \<open>size_t\<close> is 64 bits wide and wraps as C defines.

  An access outside an array, a null pointer dereference and the trap of the division
  are the error \<open>Undefined_Behaviour\<close>. A failed \<open>assert\<close> is \<open>Assertion_Failure\<close>.
\<close>

type_synonym u1 = "8 word"
type_synonym u2 = "16 word"
type_synonym u4 = "32 word"
type_synonym int32_t = "32 word"
type_synonym size_t = "64 word"

datatype error = Assertion_Failure | Undefined_Behaviour

text \<open>\<open>optional_value_t\<close>: \<open>ret_value\<close> is the field \<open>value\<close> of the struct.\<close>

record optional_value_t =
  has_value :: bool
  ret_value :: int32_t

text \<open>
  Modelled from the spec: the declarations of read_class.h are not part of the sources.
  Per method the loader provides the code bytes, \<open>code_length\<close>, \<open>max_stack\<close> (u16),
  \<open>max_locals\<close> (u16), the name and the descriptor. Of the constant pool only the
  \<open>CONSTANT_Integer\<close> entries are read by the interpreter. The three lookups
  \<open>find_method\<close>, \<open>find_method_from_index\<close> and \<open>get_number_of_parameters\<close> are
  functions of the loader; they are fields of the class here, so that every result
  below holds for any implementation of them. A lookup that finds nothing is a null
  pointer (\<open>None\<close>).
\<close>

record code_t =
  max_stack :: u2
  max_locals :: u2
  code_length :: u4
  code :: "u1 list"

record method_t =
  name :: string
  descriptor :: string
  method_code :: code_t

datatype cp_info = CONSTANT_Integer int32_t | CONSTANT_Other

record class_file_t =
  constant_pool :: "cp_info list"
  find_method :: "string \<Rightarrow> string \<Rightarrow> method_t option"
  find_method_from_index :: "int32_t \<Rightarrow> method_t option"
  get_number_of_parameters :: "method_t \<Rightarrow> u2"

text \<open>
  The state of one activation of \<open>execute\<close>: its local variables \<open>pc\<close>,
  \<open>operand_stack\<close> (an array of \<open>max_stack\<close> slots) and \<open>stack_idx\<close>, the array
  \<open>locals\<close> it was given, and the two parts of the world it changes: the heap and the
  lines printed so far. \<open>stack_idx\<close> is an \<open>int32_t\<close> that only moves by the side of an
  access to \<open>operand_stack\<close> at that position, so it cannot overflow before an access
  is out of bounds; it is an \<open>int\<close>.
\<close>

record frame =
  pc :: size_t
  operand_stack :: "int32_t list"
  stack_idx :: int
  locals :: "int32_t list"
  heap :: "int32_t list list"
  stdout :: "int list"

datatype outcome = Continue frame | Return optional_value_t frame

section \<open>Opcodes\<close>

text \<open>
  Modelled from the spec: the enumeration of jvm.h is not part of the sources; the
  opcode bytes are those of the class-file specification.
\<close>

abbreviation i_nop :: u1 where "i_nop \<equiv> 0x00"
abbreviation i_iconst_m1 :: u1 where "i_iconst_m1 \<equiv> 0x02"
abbreviation i_iconst_0 :: u1 where "i_iconst_0 \<equiv> 0x03"
abbreviation i_iconst_5 :: u1 where "i_iconst_5 \<equiv> 0x08"
abbreviation i_bipush :: u1 where "i_bipush \<equiv> 0x10"
abbreviation i_sipush :: u1 where "i_sipush \<equiv> 0x11"
abbreviation i_ldc :: u1 where "i_ldc \<equiv> 0x12"
abbreviation i_iload :: u1 where "i_iload \<equiv> 0x15"
abbreviation i_aload :: u1 where "i_aload \<equiv> 0x19"
abbreviation i_iload_0 :: u1 where "i_iload_0 \<equiv> 0x1a"
abbreviation i_iload_3 :: u1 where "i_iload_3 \<equiv> 0x1d"
abbreviation i_aload_0 :: u1 where "i_aload_0 \<equiv> 0x2a"
abbreviation i_aload_3 :: u1 where "i_aload_3 \<equiv> 0x2d"
abbreviation i_iaload :: u1 where "i_iaload \<equiv> 0x2e"
abbreviation i_istore :: u1 where "i_istore \<equiv> 0x36"
abbreviation i_astore :: u1 where "i_astore \<equiv> 0x3a"
abbreviation i_istore_0 :: u1 where "i_istore_0 \<equiv> 0x3b"
abbreviation i_istore_3 :: u1 where "i_istore_3 \<equiv> 0x3e"
abbreviation i_astore_0 :: u1 where "i_astore_0 \<equiv> 0x4b"
abbreviation i_astore_3 :: u1 where "i_astore_3 \<equiv> 0x4e"
abbreviation i_iastore :: u1 where "i_iastore \<equiv> 0x4f"
abbreviation i_dup :: u1 where "i_dup \<equiv> 0x59"
abbreviation i_iadd :: u1 where "i_iadd \<equiv> 0x60"
abbreviation i_isub :: u1 where "i_isub \<equiv> 0x64"
abbreviation i_imul :: u1 where "i_imul \<equiv> 0x68"
abbreviation i_idiv :: u1 where "i_idiv \<equiv> 0x6c"
abbreviation i_irem :: u1 where "i_irem \<equiv> 0x70"
abbreviation i_ineg :: u1 where "i_ineg \<equiv> 0x74"
abbreviation i_ishl :: u1 where "i_ishl \<equiv> 0x78"
abbreviation i_ishr :: u1 where "i_ishr \<equiv> 0x7a"
abbreviation i_iushr :: u1 where "i_iushr \<equiv> 0x7c"
abbreviation i_iand :: u1 where "i_iand \<equiv> 0x7e"
abbreviation i_ior :: u1 where "i_ior \<equiv> 0x80"
abbreviation i_ixor :: u1 where "i_ixor \<equiv> 0x82"
abbreviation i_iinc :: u1 where "i_iinc \<equiv> 0x84"
abbreviation i_ifeq :: u1 where "i_ifeq \<equiv> 0x99"
abbreviation i_ifne :: u1 where "i_ifne \<equiv> 0x9a"
abbreviation i_iflt :: u1 where "i_iflt \<equiv> 0x9b"
abbreviation i_ifge :: u1 where "i_ifge \<equiv> 0x9c"
abbreviation i_ifgt :: u1 where "i_ifgt \<equiv> 0x9d"
abbreviation i_ifle :: u1 where "i_ifle \<equiv> 0x9e"
abbreviation i_if_icmpeq :: u1 where "i_if_icmpeq \<equiv> 0x9f"
abbreviation i_if_icmpne :: u1 where "i_if_icmpne \<equiv> 0xa0"
abbreviation i_if_icmplt :: u1 where "i_if_icmplt \<equiv> 0xa1"
abbreviation i_if_icmpge :: u1 where "i_if_icmpge \<equiv> 0xa2"
abbreviation i_if_icmpgt :: u1 where "i_if_icmpgt \<equiv> 0xa3"
abbreviation i_if_icmple :: u1 where "i_if_icmple \<equiv> 0xa4"
abbreviation i_goto :: u1 where "i_goto \<equiv> 0xa7"
abbreviation i_ireturn :: u1 where "i_ireturn \<equiv> 0xac"
abbreviation i_areturn :: u1 where "i_areturn \<equiv> 0xb0"
abbreviation i_return :: u1 where "i_return \<equiv> 0xb1"
abbreviation i_getstatic :: u1 where "i_getstatic \<equiv> 0xb2"
abbreviation i_invokevirtual :: u1 where "i_invokevirtual \<equiv> 0xb6"
abbreviation i_invokestatic :: u1 where "i_invokestatic \<equiv> 0xb8"
abbreviation i_newarray :: u1 where "i_newarray \<equiv> 0xbc"
abbreviation i_arraylength :: u1 where "i_arraylength \<equiv> 0xbe"

section \<open>Arrays, errors and C arithmetic\<close>

definition ebind :: "error + 'a \<Rightarrow> ('a \<Rightarrow> error + 'b) \<Rightarrow> error + 'b" where
  "ebind r f = (case r of Inl e \<Rightarrow> Inl e | Inr x \<Rightarrow> f x)"

text \<open>\<open>a[i]\<close> and \<open>a[i] = v\<close> on a C array of \<open>length a\<close> elements.\<close>

definition array_get :: "'a list \<Rightarrow> int \<Rightarrow> error + 'a" where
  "array_get a i =
     (if 0 \<le> i \<and> i < int (length a) then Inr (a ! nat i) else Inl Undefined_Behaviour)"

definition array_set :: "'a list \<Rightarrow> int \<Rightarrow> 'a \<Rightarrow> error + 'a list" where
  "array_set a i v =
     (if 0 \<le> i \<and> i < int (length a) then Inr (a[nat i := v]) else Inl Undefined_Behaviour)"

text \<open>\<open>method->code.code[a]\<close>, the index being a \<open>size_t\<close>.\<close>

definition code_at :: "method_t \<Rightarrow> size_t \<Rightarrow> error + u1" where
  "code_at m a = array_get (code (method_code m)) (uint a)"

text \<open>
  \<open>int16_t b1 = code[pc + 1]; int8_t b2 = code[pc + 2]; (b1 << 8) | b2\<close>:
  \<open>b1\<close> holds the unsigned byte, \<open>b2\<close> the byte read as signed; both are promoted to
  \<open>int\<close> (the second with sign extension) before the shift and the bitwise or.
\<close>

definition b1_b2 :: "u1 \<Rightarrow> u1 \<Rightarrow> int32_t" where
  "b1_b2 b1 b2 = push_bit 8 (scast (ucast b1 :: 16 word)) OR scast b2"

text \<open>\<open>pc += ((b1 << 8) | b2)\<close>: the \<open>int\<close> is converted to \<open>size_t\<close> and added modulo \<open>2^64\<close>.\<close>

definition branch_target :: "method_t \<Rightarrow> size_t \<Rightarrow> error + size_t" where
  "branch_target m p =
     ebind (code_at m (p + 1)) (\<lambda>b1.
     ebind (code_at m (p + 2)) (\<lambda>b2.
       Inr (p + scast (b1_b2 b1 b2))))"

text \<open>The C operators \<open>/\<close> and \<open>%\<close> on \<open>int32_t\<close>.\<close>

definition c_div :: "int32_t \<Rightarrow> int32_t \<Rightarrow> error + int32_t" where
  "c_div a b =
     (if b = 0 \<or> (sint a = - (2 ^ 31) \<and> sint b = - 1) then Inl Undefined_Behaviour
      else Inr (word_of_int (sint a sdiv sint b)))"

definition c_rem :: "int32_t \<Rightarrow> int32_t \<Rightarrow> error + int32_t" where
  "c_rem a b =
     (if b = 0 \<or> (sint a = - (2 ^ 31) \<and> sint b = - 1) then Inl Undefined_Behaviour
      else Inr (word_of_int (sint a smod sint b)))"

text \<open>
  The shifts \<open>a << b\<close> and \<open>a >> b\<close>: the source passes the count as it is on the stack.
  The shift instruction the compiled code executes takes the count modulo 32 (C leaves
  a count outside \<open>0..31\<close> undefined); \<open>uint b mod 32\<close> is that count.
\<close>

definition c_shl :: "int32_t \<Rightarrow> int32_t \<Rightarrow> error + int32_t" where
  "c_shl a b = Inr (push_bit (nat (uint b mod 32)) a)"

definition c_shr :: "int32_t \<Rightarrow> int32_t \<Rightarrow> error + int32_t" where
  "c_shr a b = Inr (signed_drop_bit (nat (uint b mod 32)) a)"

definition c_ushr :: "int32_t \<Rightarrow> int32_t \<Rightarrow> error + int32_t" where
  "c_ushr a b = Inr (drop_bit (nat (uint b mod 32)) a)"

section \<open>The heap\<close>

text \<open>
  Modelled from the spec: heap.c is not part of the sources. The heap is an ordered
  sequence of buffers; \<open>add\<close> appends and returns the new index, indices start at 0 and
  increase by one per call; \<open>get\<close> retrieves by index and is undefined for a reference
  that \<open>add\<close> never returned.
\<close>

definition heap_init :: "int32_t list list" where
  "heap_init = []"

definition heap_add :: "int32_t list list \<Rightarrow> int32_t list \<Rightarrow> int32_t list list \<times> int32_t" where
  "heap_add h array = (h @ [array], word_of_nat (length h))"

definition heap_get :: "int32_t list list \<Rightarrow> int32_t \<Rightarrow> error + int32_t list" where
  "heap_get h ref = array_get h (sint ref)"

text \<open>
  \<open>calloc(sizeof(int32_t), n)\<close> with \<open>n\<close> a \<open>size_t\<close>: a zeroed array of \<open>n\<close> elements, or
  the null pointer when the byte count does not fit \<open>size_t\<close>. Memory is not bounded
  otherwise.
\<close>

definition calloc_int32 :: "size_t \<Rightarrow> int32_t list option" where
  "calloc_int32 n = (if 4 * uint n < 2 ^ 64 then Some (replicate (unat n) 0) else None)"

section \<open>The instructions of \<open>execute\<close>\<close>

text \<open>
  One definition per case of the \<open>switch\<close>; each one is the body of the case, on the
  frame \<open>s\<close> of the running method \<open>m\<close>.
\<close>

definition exec_bipush :: "method_t \<Rightarrow> frame \<Rightarrow> error + outcome" where
  "exec_bipush m s =
     ebind (code_at m (pc s + 1)) (\<lambda>b.
     ebind (array_set (operand_stack s) (stack_idx s) (scast b)) (\<lambda>stk.
       Inr (Continue (s\<lparr>operand_stack := stk, pc := pc s + 2,
                         stack_idx := stack_idx s + 1\<rparr>))))"

text \<open>\<open>stack_idx -= 1; sum = operand_stack[stack_idx] + operand_stack[stack_idx - 1]\<close>.\<close>

definition exec_iadd :: "frame \<Rightarrow> error + outcome" where
  "exec_iadd s =
     (let sp = stack_idx s - 1 in
      ebind (array_get (operand_stack s) sp) (\<lambda>x.
      ebind (array_get (operand_stack s) (sp - 1)) (\<lambda>y.
      ebind (array_set (operand_stack s) (sp - 1) (x + y)) (\<lambda>stk.
        Inr (Continue (s\<lparr>operand_stack := stk, stack_idx := sp, pc := pc s + 1\<rparr>))))))"

definition exec_return :: "frame \<Rightarrow> error + outcome" where
  "exec_return s = Inr (Return \<lparr>has_value = False, ret_value = 0\<rparr> s)"

definition exec_getstatic :: "frame \<Rightarrow> error + outcome" where
  "exec_getstatic s = Inr (Continue (s\<lparr>pc := pc s + 3\<rparr>))"

text \<open>\<open>printf("%d\n", operand_stack[stack_idx])\<close> appends one line to the output.\<close>

definition exec_invokevirtual :: "frame \<Rightarrow> error + outcome" where
  "exec_invokevirtual s =
     (let sp = stack_idx s - 1 in
      ebind (array_get (operand_stack s) sp) (\<lambda>x.
        Inr (Continue (s\<lparr>stack_idx := sp, stdout := stdout s @ [sint x],
                          pc := pc s + 3\<rparr>))))"

definition exec_iconst :: "u1 \<Rightarrow> frame \<Rightarrow> error + outcome" where
  "exec_iconst opc s =
     ebind (array_set (operand_stack s) (stack_idx s) (ucast opc - ucast i_iconst_0)) (\<lambda>stk.
       Inr (Continue (s\<lparr>operand_stack := stk, stack_idx := stack_idx s + 1,
                         pc := pc s + 1\<rparr>)))"

text \<open>\<open>(short) (code[pc + 1] << 8 | code[pc + 2])\<close>: both bytes unsigned.\<close>

definition exec_sipush :: "method_t \<Rightarrow> frame \<Rightarrow> error + outcome" where
  "exec_sipush m s =
     ebind (code_at m (pc s + 1)) (\<lambda>b1.
     ebind (code_at m (pc s + 2)) (\<lambda>b2.
     ebind (array_set (operand_stack s) (stack_idx s)
              (scast (ucast (push_bit 8 (ucast b1 :: int32_t) OR ucast b2) :: 16 word))) (\<lambda>stk.
       Inr (Continue (s\<lparr>operand_stack := stk, stack_idx := stack_idx s + 1,
                         pc := pc s + 3\<rparr>)))))"

text \<open>
  \<open>stack_idx -= 1; operand_stack[stack_idx - 1] = operand_stack[stack_idx - 1] op
  operand_stack[stack_idx]\<close>, the shape of isub, imul, idiv, irem, the shifts and the
  bitwise instructions.
\<close>

definition exec_binop ::
  "(int32_t \<Rightarrow> int32_t \<Rightarrow> error + int32_t) \<Rightarrow> frame \<Rightarrow> error + outcome" where
  "exec_binop f s =
     (let sp = stack_idx s - 1 in
      ebind (array_get (operand_stack s) (sp - 1)) (\<lambda>a.
      ebind (array_get (operand_stack s) sp) (\<lambda>b.
      ebind (f a b) (\<lambda>r.
      ebind (array_set (operand_stack s) (sp - 1) r) (\<lambda>stk.
        Inr (Continue (s\<lparr>operand_stack := stk, stack_idx := sp, pc := pc s + 1\<rparr>)))))))"

definition exec_isub :: "frame \<Rightarrow> error + outcome" where
  "exec_isub s = exec_binop (\<lambda>a b. Inr (a - b)) s"

definition exec_imul :: "frame \<Rightarrow> error + outcome" where
  "exec_imul s = exec_binop (\<lambda>a b. Inr (a * b)) s"

text \<open>\<open>assert(operand_stack[stack_idx - 1] != 0)\<close> comes first in idiv and irem.\<close>

definition exec_idiv :: "frame \<Rightarrow> error + outcome" where
  "exec_idiv s =
     ebind (array_get (operand_stack s) (stack_idx s - 1)) (\<lambda>b.
       if b = 0 then Inl Assertion_Failure else exec_binop c_div s)"

definition exec_irem :: "frame \<Rightarrow> error + outcome" where
  "exec_irem s =
     ebind (array_get (operand_stack s) (stack_idx s - 1)) (\<lambda>b.
       if b = 0 then Inl Assertion_Failure else exec_binop c_rem s)"

definition exec_ineg :: "frame \<Rightarrow> error + outcome" where
  "exec_ineg s =
     ebind (array_get (operand_stack s) (stack_idx s - 1)) (\<lambda>a.
     ebind (array_set (operand_stack s) (stack_idx s - 1) (- a)) (\<lambda>stk.
       Inr (Continue (s\<lparr>operand_stack := stk, pc := pc s + 1\<rparr>))))"

definition exec_ishl :: "frame \<Rightarrow> error + outcome" where
  "exec_ishl s = exec_binop c_shl s"

definition exec_ishr :: "frame \<Rightarrow> error + outcome" where
  "exec_ishr s = exec_binop c_shr s"

definition exec_iushr :: "frame \<Rightarrow> error + outcome" where
  "exec_iushr s = exec_binop c_ushr s"

definition exec_iand :: "frame \<Rightarrow> error + outcome" where
  "exec_iand s = exec_binop (\<lambda>a b. Inr (a AND b)) s"

definition exec_ior :: "frame \<Rightarrow> error + outcome" where
  "exec_ior s = exec_binop (\<lambda>a b. Inr (a OR b)) s"

definition exec_ixor :: "frame \<Rightarrow> error + outcome" where
  "exec_ixor s = exec_binop (\<lambda>a b. Inr (a XOR b)) s"

text \<open>iload and aload: \<open>operand_stack[stack_idx] = locals[code[pc + 1]]\<close>.\<close>

definition exec_iload :: "method_t \<Rightarrow> frame \<Rightarrow> error + outcome" where
  "exec_iload m s =
     ebind (code_at m (pc s + 1)) (\<lambda>n.
     ebind (array_get (locals s) (uint n)) (\<lambda>x.
     ebind (array_set (operand_stack s) (stack_idx s) x) (\<lambda>stk.
       Inr (Continue (s\<lparr>operand_stack := stk, stack_idx := stack_idx s + 1,
                         pc := pc s + 2\<rparr>)))))"

text \<open>iload_0..3 and aload_0..3: the slot is \<open>(int32_t) code[pc] - base\<close>.\<close>

definition exec_iload_n :: "u1 \<Rightarrow> u1 \<Rightarrow> frame \<Rightarrow> error + outcome" where
  "exec_iload_n base opc s =
     ebind (array_get (locals s) (uint opc - uint base)) (\<lambda>x.
     ebind (array_set (operand_stack s) (stack_idx s) x) (\<lambda>stk.
       Inr (Continue (s\<lparr>operand_stack := stk, stack_idx := stack_idx s + 1,
                         pc := pc s + 1\<rparr>))))"

text \<open>istore and astore: \<open>stack_idx -= 1; locals[code[pc + 1]] = operand_stack[stack_idx]\<close>.\<close>

definition exec_istore :: "method_t \<Rightarrow> frame \<Rightarrow> error + outcome" where
  "exec_istore m s =
     (let sp = stack_idx s - 1 in
      ebind (code_at m (pc s + 1)) (\<lambda>n.
      ebind (array_get (operand_stack s) sp) (\<lambda>x.
      ebind (array_set (locals s) (uint n) x) (\<lambda>ls.
        Inr (Continue (s\<lparr>stack_idx := sp, locals := ls, pc := pc s + 2\<rparr>))))))"

definition exec_istore_n :: "u1 \<Rightarrow> u1 \<Rightarrow> frame \<Rightarrow> error + outcome" where
  "exec_istore_n base opc s =
     (let sp = stack_idx s - 1 in
      ebind (array_get (operand_stack s) sp) (\<lambda>x.
      ebind (array_set (locals s) (uint opc - uint base) x) (\<lambda>ls.
        Inr (Continue (s\<lparr>stack_idx := sp, locals := ls, pc := pc s + 1\<rparr>)))))"

definition exec_iinc :: "method_t \<Rightarrow> frame \<Rightarrow> error + outcome" where
  "exec_iinc m s =
     ebind (code_at m (pc s + 1)) (\<lambda>n.
     ebind (code_at m (pc s + 2)) (\<lambda>c.
     ebind (array_get (locals s) (uint n)) (\<lambda>x.
     ebind (array_set (locals s) (uint n) (x + scast c)) (\<lambda>ls.
       Inr (Continue (s\<lparr>locals := ls, pc := pc s + 3\<rparr>))))))"

text \<open>
  \<open>const_idx = (int32_t) code[pc + 1] - 1\<close>; the entry is read as a
  \<open>CONSTANT_Integer_info\<close>, which is defined only for an entry that is one.
\<close>

definition exec_ldc :: "class_file_t \<Rightarrow> method_t \<Rightarrow> frame \<Rightarrow> error + outcome" where
  "exec_ldc cls m s =
     ebind (code_at m (pc s + 1)) (\<lambda>n.
     ebind (array_get (constant_pool cls) (uint n - 1)) (\<lambda>entry.
     ebind (case entry of CONSTANT_Integer bytes \<Rightarrow> Inr bytes
                        | CONSTANT_Other \<Rightarrow> Inl Undefined_Behaviour) (\<lambda>x.
     ebind (array_set (operand_stack s) (stack_idx s) x) (\<lambda>stk.
       Inr (Continue (s\<lparr>operand_stack := stk, stack_idx := stack_idx s + 1,
                         pc := pc s + 2\<rparr>))))))"

text \<open>
  ifeq .. ifle test \<open>operand_stack[stack_idx - 1]\<close> against 0, if_icmpeq .. if_icmple
  test \<open>operand_stack[stack_idx - 2]\<close> against \<open>operand_stack[stack_idx - 1]\<close>; the
  twelve cases differ in the comparison only.
\<close>

definition exec_if :: "(int32_t \<Rightarrow> bool) \<Rightarrow> method_t \<Rightarrow> frame \<Rightarrow> error + outcome" where
  "exec_if cond m s =
     ebind (array_get (operand_stack s) (stack_idx s - 1)) (\<lambda>a.
     ebind (if cond a then branch_target m (pc s) else Inr (pc s + 3)) (\<lambda>p.
       Inr (Continue (s\<lparr>pc := p, stack_idx := stack_idx s - 1\<rparr>))))"

definition exec_if_icmp ::
  "(int32_t \<Rightarrow> int32_t \<Rightarrow> bool) \<Rightarrow> method_t \<Rightarrow> frame \<Rightarrow> error + outcome" where
  "exec_if_icmp cond m s =
     ebind (array_get (operand_stack s) (stack_idx s - 2)) (\<lambda>a.
     ebind (array_get (operand_stack s) (stack_idx s - 1)) (\<lambda>b.
     ebind (if cond a b then branch_target m (pc s) else Inr (pc s + 3)) (\<lambda>p.
       Inr (Continue (s\<lparr>pc := p, stack_idx := stack_idx s - 2\<rparr>)))))"

definition exec_goto :: "method_t \<Rightarrow> frame \<Rightarrow> error + outcome" where
  "exec_goto m s =
     ebind (branch_target m (pc s)) (\<lambda>p. Inr (Continue (s\<lparr>pc := p\<rparr>)))"

text \<open>ireturn and areturn.\<close>

definition exec_ireturn :: "frame \<Rightarrow> error + outcome" where
  "exec_ireturn s =
     (let sp = stack_idx s - 1 in
      ebind (array_get (operand_stack s) sp) (\<lambda>x.
        Inr (Return \<lparr>has_value = True, ret_value = x\<rparr> (s\<lparr>stack_idx := sp\<rparr>))))"

definition exec_nop :: "frame \<Rightarrow> error + outcome" where
  "exec_nop s = Inr (Continue (s\<lparr>pc := pc s + 1\<rparr>))"

definition exec_dup :: "frame \<Rightarrow> error + outcome" where
  "exec_dup s =
     ebind (array_get (operand_stack s) (stack_idx s - 1)) (\<lambda>x.
     ebind (array_set (operand_stack s) (stack_idx s) x) (\<lambda>stk.
       Inr (Continue (s\<lparr>operand_stack := stk, stack_idx := stack_idx s + 1,
                         pc := pc s + 1\<rparr>))))"

subsection \<open>Arrays\<close>

text \<open>\<open>for (int i = 1; i <= n; i++) array[i] = 0;\<close> of newarray, started at \<open>i\<close>.\<close>

function zero_fill :: "int32_t list \<Rightarrow> int \<Rightarrow> int \<Rightarrow> error + int32_t list" where
  "zero_fill array i n =
     (if i \<le> n
      then (case array_set array i 0 of
              Inl e \<Rightarrow> Inl e
            | Inr array' \<Rightarrow> zero_fill array' (i + 1) n)
      else Inr array)"
  by pat_completeness auto
termination
  by (relation "measure (\<lambda>(array, i, n). nat (n + 1 - i))") auto

text \<open>
  newarray: \<open>calloc(sizeof(int32_t), operand_stack[stack_idx - 1] + 1)\<close>, where the sum
  is an \<open>int\<close> converted to \<open>size_t\<close>; the length goes to slot 0; the array is added to
  the heap and its reference replaces the length on the stack.
\<close>

definition exec_newarray :: "frame \<Rightarrow> error + outcome" where
  "exec_newarray s =
     ebind (array_get (operand_stack s) (stack_idx s - 1)) (\<lambda>n.
     ebind (case calloc_int32 (scast (n + 1)) of
              None \<Rightarrow> Inl Undefined_Behaviour
            | Some array \<Rightarrow> Inr array) (\<lambda>array.
     ebind (array_set array 0 n) (\<lambda>array.
     ebind (zero_fill array 1 (sint n)) (\<lambda>array.
       (case heap_add (heap s) array of (h, ref) \<Rightarrow>
          ebind (array_set (operand_stack s) (stack_idx s - 1) ref) (\<lambda>stk.
            Inr (Continue (s\<lparr>operand_stack := stk, heap := h, pc := pc s + 2\<rparr>))))))))"

definition exec_arraylength :: "frame \<Rightarrow> error + outcome" where
  "exec_arraylength s =
     ebind (array_get (operand_stack s) (stack_idx s - 1)) (\<lambda>ref.
     ebind (heap_get (heap s) ref) (\<lambda>array.
     ebind (array_get array 0) (\<lambda>len.
     ebind (array_set (operand_stack s) (stack_idx s - 1) len) (\<lambda>stk.
       Inr (Continue (s\<lparr>operand_stack := stk, pc := pc s + 1\<rparr>))))))"

text \<open>
  iastore: \<open>heap_get(heap, operand_stack[stack_idx - 3])[operand_stack[stack_idx - 2] + 1]
  = operand_stack[stack_idx - 1]\<close>. The buffer is written in place, so the heap holds
  the updated buffer under the same reference.
\<close>

definition exec_iastore :: "frame \<Rightarrow> error + outcome" where
  "exec_iastore s =
     ebind (array_get (operand_stack s) (stack_idx s - 3)) (\<lambda>ref.
     ebind (array_get (operand_stack s) (stack_idx s - 2)) (\<lambda>idx.
     ebind (array_get (operand_stack s) (stack_idx s - 1)) (\<lambda>v.
     ebind (heap_get (heap s) ref) (\<lambda>array.
     ebind (array_set array (sint (idx + 1)) v) (\<lambda>array'.
       Inr (Continue (s\<lparr>heap := (heap s)[nat (sint ref) := array'],
                         stack_idx := stack_idx s - 3, pc := pc s + 1\<rparr>)))))))"

text \<open>
  iaload: \<open>stack_idx -= 1; operand_stack[stack_idx - 1] =
  heap_get(heap, operand_stack[stack_idx - 1])[operand_stack[stack_idx] + 1]\<close>.
\<close>

definition exec_iaload :: "frame \<Rightarrow> error + outcome" where
  "exec_iaload s =
     (let sp = stack_idx s - 1 in
      ebind (array_get (operand_stack s) (sp - 1)) (\<lambda>ref.
      ebind (array_get (operand_stack s) sp) (\<lambda>idx.
      ebind (heap_get (heap s) ref) (\<lambda>array.
      ebind (array_get array (sint (idx + 1))) (\<lambda>x.
      ebind (array_set (operand_stack s) (sp - 1) x) (\<lambda>stk.
        Inr (Continue (s\<lparr>operand_stack := stk, stack_idx := sp, pc := pc s + 1\<rparr>))))))))"

subsection \<open>invokestatic\<close>

text \<open>
  \<open>for (int32_t i = num_params - 1; i >= 0; i--) { stack_idx -= 1; callee_locals[i] =
  operand_stack[stack_idx]; }\<close>, with \<open>k\<close> iterations left (\<open>i = k - 1\<close>).
\<close>

fun pop_params ::
  "nat \<Rightarrow> int32_t list \<Rightarrow> int \<Rightarrow> int32_t list \<Rightarrow> error + (int32_t list \<times> int)" where
  "pop_params 0 stk sp callee_locals = Inr (callee_locals, sp)"
| "pop_params (Suc i) stk sp callee_locals =
     ebind (array_get stk (sp - 1)) (\<lambda>x.
     ebind (array_set callee_locals (int i) x) (\<lambda>callee_locals'.
       pop_params i stk (sp - 1) callee_locals'))"

text \<open>
  The part of the case before the recursive call: the callee is resolved from
  \<open>(b1 << 8) | b2\<close>, \<open>num_params\<close> is an \<open>int16_t\<close>, \<open>callee_locals\<close> comes zeroed from
  \<open>calloc\<close> with \<open>max_locals\<close> slots, and the loop pops the arguments. The result is the
  callee, its locals and the caller's new \<open>stack_idx\<close>.
\<close>

definition invokestatic_args ::
  "class_file_t \<Rightarrow> method_t \<Rightarrow> frame \<Rightarrow> error + (method_t \<times> int32_t list \<times> int)" where
  "invokestatic_args cls m s =
     ebind (code_at m (pc s + 1)) (\<lambda>b1.
     ebind (code_at m (pc s + 2)) (\<lambda>b2.
       (case find_method_from_index cls (b1_b2 b1 b2) of
          None \<Rightarrow> Inl Undefined_Behaviour
        | Some callee_method \<Rightarrow>
            (let num_params = sint (get_number_of_parameters cls callee_method);
                 callee_locals = replicate (unat (max_locals (method_code callee_method))) 0
             in ebind (pop_params (nat num_params) (operand_stack s) (stack_idx s) callee_locals)
                  (\<lambda>(callee_locals', sp). Inr (callee_method, callee_locals', sp))))))"

text \<open>
  The part after the call: the returned value is pushed if there is one, and
  \<open>pc += 3\<close>. The heap and the output are those the callee left.
\<close>

definition invokestatic_ret :: "frame \<Rightarrow> int \<Rightarrow> optional_value_t \<Rightarrow> frame \<Rightarrow> error + outcome" where
  "invokestatic_ret s sp ret callee_final =
     (if has_value ret
      then ebind (array_set (operand_stack s) sp (ret_value ret)) (\<lambda>stk.
             Inr (Continue (s\<lparr>operand_stack := stk, stack_idx := sp + 1, pc := pc s + 3,
                               heap := heap callee_final, stdout := stdout callee_final\<rparr>)))
      else Inr (Continue (s\<lparr>stack_idx := sp, pc := pc s + 3,
                             heap := heap callee_final, stdout := stdout callee_final\<rparr>)))"

text \<open>
  \<open>call\<close> is the recursive \<open>execute(callee_method, callee_locals, class, heap)\<close>; it
  yields \<open>None\<close> when the callee does not return.
\<close>

definition exec_invokestatic ::
  "(method_t \<Rightarrow> int32_t list \<Rightarrow> int32_t list list \<Rightarrow> int list
      \<Rightarrow> (error + optional_value_t \<times> frame) option)
   \<Rightarrow> class_file_t \<Rightarrow> method_t \<Rightarrow> frame \<Rightarrow> (error + outcome) option" where
  "exec_invokestatic call cls m s =
     (case invokestatic_args cls m s of
        Inl e \<Rightarrow> Some (Inl e)
      | Inr (callee_method, callee_locals, sp) \<Rightarrow>
          (case call callee_method callee_locals (heap s) (stdout s) of
             None \<Rightarrow> None
           | Some (Inl e) \<Rightarrow> Some (Inl e)
           | Some (Inr (ret, callee_final)) \<Rightarrow> Some (invokestatic_ret s sp ret callee_final)))"

section \<open>The dispatch loop\<close>

text \<open>
  The \<open>switch\<close> on \<open>code[pc]\<close>, in the order of the source. The \<open>switch\<close> has no
  \<open>default\<close>: for any other byte no case runs and the frame is unchanged.
\<close>

definition step ::
  "(method_t \<Rightarrow> int32_t list \<Rightarrow> int32_t list list \<Rightarrow> int list
      \<Rightarrow> (error + optional_value_t \<times> frame) option)
   \<Rightarrow> class_file_t \<Rightarrow> method_t \<Rightarrow> frame \<Rightarrow> (error + outcome) option" where
  "step call cls m s =
     (case code_at m (pc s) of
        Inl e \<Rightarrow> Some (Inl e)
      | Inr opc \<Rightarrow>
          if opc = i_bipush then Some (exec_bipush m s)
          else if opc = i_iadd then Some (exec_iadd s)
          else if opc = i_return then Some (exec_return s)
          else if opc = i_getstatic then Some (exec_getstatic s)
          else if opc = i_invokevirtual then Some (exec_invokevirtual s)
          else if i_iconst_m1 \<le> opc \<and> opc \<le> i_iconst_5 then Some (exec_iconst opc s)
          else if opc = i_sipush then Some (exec_sipush m s)
          else if opc = i_isub then Some (exec_isub s)
          else if opc = i_imul then Some (exec_imul s)
          else if opc = i_idiv then Some (exec_idiv s)
          else if opc = i_irem then Some (exec_irem s)
          else if opc = i_ineg then Some (exec_ineg s)
          else if opc = i_ishl then Some (exec_ishl s)
          else if opc = i_ishr then Some (exec_ishr s)
          else if opc = i_iushr then Some (exec_iushr s)
          else if opc = i_iand then Some (exec_iand s)
          else if opc = i_ior then Some (exec_ior s)
          else if opc = i_ixor then Some (exec_ixor s)
          else if opc = i_iload then Some (exec_iload m s)
          else if i_iload_0 \<le> opc \<and> opc \<le> i_iload_3 then Some (exec_iload_n i_iload_0 opc s)
          else if opc = i_istore then Some (exec_istore m s)
          else if i_istore_0 \<le> opc \<and> opc \<le> i_istore_3 then Some (exec_istore_n i_istore_0 opc s)
          else if opc = i_iinc then Some (exec_iinc m s)
          else if opc = i_ldc then Some (exec_ldc cls m s)
          else if opc = i_ifeq then Some (exec_if (\<lambda>a. a = 0) m s)
          else if opc = i_ifne then Some (exec_if (\<lambda>a. a \<noteq> 0) m s)
          else if opc = i_iflt then Some (exec_if (\<lambda>a. a <s 0) m s)
          else if opc = i_ifge then Some (exec_if (\<lambda>a. 0 \<le>s a) m s)
          else if opc = i_ifgt then Some (exec_if (\<lambda>a. 0 <s a) m s)
          else if opc = i_ifle then Some (exec_if (\<lambda>a. a \<le>s 0) m s)
          else if opc = i_if_icmpeq then Some (exec_if_icmp (\<lambda>a b. a = b) m s)
          else if opc = i_if_icmpne then Some (exec_if_icmp (\<lambda>a b. a \<noteq> b) m s)
          else if opc = i_if_icmplt then Some (exec_if_icmp (\<lambda>a b. a <s b) m s)
          else if opc = i_if_icmpge then Some (exec_if_icmp (\<lambda>a b. b \<le>s a) m s)
          else if opc = i_if_icmpgt then Some (exec_if_icmp (\<lambda>a b. b <s a) m s)
          else if opc = i_if_icmple then Some (exec_if_icmp (\<lambda>a b. a \<le>s b) m s)
          else if opc = i_goto then Some (exec_goto m s)
          else if opc = i_ireturn then Some (exec_ireturn s)
          else if opc = i_invokestatic then exec_invokestatic call cls m s
          else if opc = i_nop then Some (exec_nop s)
          else if opc = i_dup then Some (exec_dup s)
          else if opc = i_newarray then Some (exec_newarray s)
          else if opc = i_arraylength then Some (exec_arraylength s)
          else if opc = i_areturn then Some (exec_ireturn s)
          else if opc = i_iastore then Some (exec_iastore s)
          else if opc = i_iaload then Some (exec_iaload s)
          else if opc = i_aload then Some (exec_iload m s)
          else if opc = i_astore then Some (exec_istore m s)
          else if i_aload_0 \<le> opc \<and> opc \<le> i_aload_3 then Some (exec_iload_n i_aload_0 opc s)
          else if i_astore_0 \<le> opc \<and> opc \<le> i_astore_3 then Some (exec_istore_n i_astore_0 opc s)
          else Some (Inr (Continue s)))"

text \<open>The frame \<open>execute\<close> starts with: \<open>pc = 0\<close>, a zeroed operand stack, \<open>stack_idx = 0\<close>.\<close>

definition init_frame ::
  "method_t \<Rightarrow> int32_t list \<Rightarrow> int32_t list list \<Rightarrow> int list \<Rightarrow> frame" where
  "init_frame m ls h out =
     \<lparr>pc = 0, operand_stack = replicate (unat (max_stack (method_code m))) 0, stack_idx = 0,
      locals = ls, heap = h, stdout = out\<rparr>"

text \<open>
  \<open>while (pc < method->code.code_length) { switch ... }\<close>, followed by the void return
  after the loop. The loop and the recursion of invokestatic need not end, so the
  function takes fuel: one unit per iteration and per nested call. \<open>None\<close> means that
  the fuel did not suffice; a run that gets \<open>None\<close> for every amount of fuel never
  returns.
\<close>

fun run ::
  "nat \<Rightarrow> class_file_t \<Rightarrow> method_t \<Rightarrow> frame \<Rightarrow> (error + optional_value_t \<times> frame) option" where
  "run 0 cls m s = None"
| "run (Suc n) cls m s =
     (if pc s < ucast (code_length (method_code m))
      then (case step (\<lambda>callee ls h out. run n cls callee (init_frame callee ls h out)) cls m s of
              None \<Rightarrow> None
            | Some (Inl e) \<Rightarrow> Some (Inl e)
            | Some (Inr (Continue s')) \<Rightarrow> run n cls m s'
            | Some (Inr (Return result s')) \<Rightarrow> Some (Inr (result, s')))
      else Some (Inr (\<lparr>has_value = False, ret_value = 0\<rparr>, s)))"

definition execute ::
  "nat \<Rightarrow> method_t \<Rightarrow> int32_t list \<Rightarrow> class_file_t \<Rightarrow> int32_t list list \<Rightarrow> int list
     \<Rightarrow> (error + optional_value_t \<times> frame) option" where
  "execute n m ls cls h out = run n cls m (init_frame m ls h out)"

section \<open>The driver\<close>

definition MAIN_METHOD :: string where
  "MAIN_METHOD = ''main''"

definition MAIN_DESCRIPTOR :: string where
  "MAIN_DESCRIPTOR = ''([Ljava/lang/String;)V''"

text \<open>
  \<open>main\<close> from the parsed class on (opening and parsing the file are the loader's):
  the usage error is status 1; a missing main method and a main method that returns a
  value fail their assertions; otherwise the status is 0. The result carries the exit
  status and the lines printed.
\<close>

definition main :: "nat \<Rightarrow> nat \<Rightarrow> class_file_t \<Rightarrow> (error + int \<times> int list) option" where
  "main n argc cls =
     (if argc \<noteq> 2 then Some (Inr (1, []))
      else (case find_method cls MAIN_METHOD MAIN_DESCRIPTOR of
              None \<Rightarrow> Some (Inl Assertion_Failure)
            | Some main_method \<Rightarrow>
                (case execute n main_method
                        (replicate (unat (max_locals (method_code main_method))) 0)
                        cls heap_init [] of
                   None \<Rightarrow> None
                 | Some (Inl e) \<Rightarrow> Some (Inl e)
                 | Some (Inr (result, s)) \<Rightarrow>
                     if has_value result then Some (Inl Assertion_Failure)
                     else Some (Inr (0, stdout s)))))"

section \<open>Notions used in the statements\<close>

text \<open>
  The value denoted by an integer taken modulo \<open>2^32\<close> and read as a signed 32-bit
  integer.
\<close>

definition as_signed32 :: "int \<Rightarrow> int" where
  "as_signed32 k = (let u = k mod 2 ^ 32 in if u < 2 ^ 31 then u else u - 2 ^ 32)"

text \<open>
  \<open>on_top2 s a b\<close>: the operand stack of \<open>s\<close> holds \<open>b\<close> on top and \<open>a\<close> below it.
  \<open>pop2_push s r\<close>: the frame after both were popped, \<open>r\<close> was pushed and \<open>pc\<close> moved to
  the next byte.
\<close>

definition on_top2 :: "frame \<Rightarrow> int32_t \<Rightarrow> int32_t \<Rightarrow> bool" where
  "on_top2 s a b \<longleftrightarrow>
     2 \<le> stack_idx s \<and> stack_idx s \<le> int (length (operand_stack s)) \<and>
     operand_stack s ! nat (stack_idx s - 2) = a \<and>
     operand_stack s ! nat (stack_idx s - 1) = b"

definition pop2_push :: "frame \<Rightarrow> int32_t \<Rightarrow> frame" where
  "pop2_push s r =
     s\<lparr>operand_stack := (operand_stack s)[nat (stack_idx s - 2) := r],
       stack_idx := stack_idx s - 1, pc := pc s + 1\<rparr>"

text \<open>
  \<open>on_top1\<close> and \<open>on_top3\<close>: one and three known values on top of the operand stack
  (the last argument is the top). \<open>replace_top s r\<close>: the frame after the top was
  replaced by \<open>r\<close> and \<open>pc\<close> moved to the next byte.
\<close>

definition on_top1 :: "frame \<Rightarrow> int32_t \<Rightarrow> bool" where
  "on_top1 s a \<longleftrightarrow>
     1 \<le> stack_idx s \<and> stack_idx s \<le> int (length (operand_stack s)) \<and>
     operand_stack s ! nat (stack_idx s - 1) = a"

definition on_top3 :: "frame \<Rightarrow> int32_t \<Rightarrow> int32_t \<Rightarrow> int32_t \<Rightarrow> bool" where
  "on_top3 s a b c \<longleftrightarrow>
     3 \<le> stack_idx s \<and> stack_idx s \<le> int (length (operand_stack s)) \<and>
     operand_stack s ! nat (stack_idx s - 3) = a \<and>
     operand_stack s ! nat (stack_idx s - 2) = b \<and>
     operand_stack s ! nat (stack_idx s - 1) = c"

definition replace_top :: "frame \<Rightarrow> int32_t \<Rightarrow> frame" where
  "replace_top s r =
     s\<lparr>operand_stack := (operand_stack s)[nat (stack_idx s - 1) := r], pc := pc s + 1\<rparr>"

text \<open>
  The heap slots the array instructions address: \<open>element_slot h ref i\<close> is
  \<open>heap_get(heap, ref)[i + 1]\<close> and \<open>length_slot h ref\<close> is \<open>heap_get(heap, ref)[0]\<close>.
\<close>

definition element_slot :: "int32_t list list \<Rightarrow> int32_t \<Rightarrow> int32_t \<Rightarrow> error + int32_t" where
  "element_slot h ref i = ebind (heap_get h ref) (\<lambda>array. array_get array (sint (i + 1)))"

definition length_slot :: "int32_t list list \<Rightarrow> int32_t \<Rightarrow> error + int32_t" where
  "length_slot h ref = ebind (heap_get h ref) (\<lambda>array. array_get array 0)"

text \<open>
  The branch offset as the class-file format defines it: both bytes unsigned, composed
  big-endian into 16 bits, then sign-extended.
\<close>

definition spec_branch_offset :: "u1 \<Rightarrow> u1 \<Rightarrow> size_t" where
  "spec_branch_offset b1 b2 = scast (push_bit 8 (ucast b1 :: 16 word) OR ucast b2)"

text \<open>
  The constant-pool index of invokestatic as the class-file format defines it: the two
  bytes unsigned, composed big-endian.
\<close>

definition spec_index :: "u1 \<Rightarrow> u1 \<Rightarrow> int32_t" where
  "spec_index b1 b2 = push_bit 8 (ucast b1) OR ucast b2"

text \<open>The opcode bytes for which the \<open>switch\<close> has a case.\<close>

definition defined_opcode :: "u1 \<Rightarrow> bool" where
  "defined_opcode opc \<longleftrightarrow>
     opc \<in> {i_bipush, i_iadd, i_return, i_getstatic, i_invokevirtual, i_sipush, i_isub, i_imul,
            i_idiv, i_irem, i_ineg, i_ishl, i_ishr, i_iushr, i_iand, i_ior, i_ixor, i_iload,
            i_istore, i_iinc, i_ldc, i_ifeq, i_ifne, i_iflt, i_ifge, i_ifgt, i_ifle,
            i_if_icmpeq, i_if_icmpne, i_if_icmplt, i_if_icmpge, i_if_icmpgt, i_if_icmple,
            i_goto, i_ireturn, i_invokestatic, i_nop, i_dup, i_newarray, i_arraylength,
            i_areturn, i_iastore, i_iaload, i_aload, i_astore} \<or>
     (i_iconst_m1 \<le> opc \<and> opc \<le> i_iconst_5) \<or>
     (i_iload_0 \<le> opc \<and> opc \<le> i_iload_3) \<or>
     (i_istore_0 \<le> opc \<and> opc \<le> i_istore_3) \<or>
     (i_aload_0 \<le> opc \<and> opc \<le> i_aload_3) \<or>
     (i_astore_0 \<le> opc \<and> opc \<le> i_astore_3)"

text \<open>Concrete methods and frames for the examples.\<close>

definition method_of_code :: "u1 list \<Rightarrow> method_t" where
  "method_of_code c =
     \<lparr>name = ''main'', descriptor = ''([Ljava/lang/String;)V'',
      method_code = \<lparr>max_stack = 4, max_locals = 4, code_length = word_of_nat (length c), code = c\<rparr>\<rparr>"

definition frame_of_stack :: "int32_t list \<Rightarrow> int \<Rightarrow> frame" where
  "frame_of_stack stk sp =
     \<lparr>pc = 0, operand_stack = stk, stack_idx = sp, locals = [], heap = [], stdout = []\<rparr>"

definition frame_with_heap :: "int32_t list \<Rightarrow> int \<Rightarrow> int32_t list list \<Rightarrow> frame" where
  "frame_with_heap stk sp h = (frame_of_stack stk sp)\<lparr>heap := h\<rparr>"

text \<open>
  \<open>far_goto\<close> starts with a goto whose offset is \<open>0x0080\<close>, the address of its bipush.
  \<open>lconst_0_main\<close> starts with the byte \<open>0x09\<close> (lconst_0 of the class-file format),
  for which the \<open>switch\<close> has no case. \<open>ireturn_main\<close> returns the integer 0.
\<close>

definition far_goto :: method_t where
  "far_goto = method_of_code (i_goto # 0x00 # 0x80 # replicate 125 i_nop @ [i_bipush, 7, i_ireturn])"

definition lconst_0_main :: method_t where
  "lconst_0_main = method_of_code [0x09, i_return]"

definition ireturn_main :: method_t where
  "ireturn_main = method_of_code [i_iconst_0, i_ireturn]"

text \<open>
  \<open>overwrite_length_main\<close> creates an array of length 10, stores 42 at index \<open>-1\<close> and
  returns the array's length.
\<close>

definition overwrite_length_main :: method_t where
  "overwrite_length_main =
     method_of_code [i_bipush, 10, i_newarray, 10, i_dup, i_iconst_m1, i_bipush, 42, i_iastore,
                     i_arraylength, i_ireturn]"

text \<open>
  \<open>callee_sub\<close> is a static method of two parameters that returns their difference
  (iload_0, iload_1, isub, ireturn); \<open>class_with_callee callee k\<close> resolves the
  constant-pool index 2 to \<open>callee\<close> and reports \<open>k\<close> parameters.
\<close>

definition callee_sub :: method_t where
  "callee_sub = method_of_code [i_iload_0, 0x1b, i_isub, i_ireturn]"

definition class_with_callee :: "method_t \<Rightarrow> u2 \<Rightarrow> class_file_t" where
  "class_with_callee callee k =
     \<lparr>constant_pool = [],
      find_method = (\<lambda>n d. None),
      find_method_from_index = (\<lambda>i. if i = 2 then Some callee else None),
      get_number_of_parameters = (\<lambda>callee. k)\<rparr>"

text \<open>\<open>class_with_callee_at_128\<close> resolves the constant-pool index 128 to \<open>callee_sub\<close>.\<close>

definition class_with_callee_at_128 :: class_file_t where
  "class_with_callee_at_128 =
     \<lparr>constant_pool = [],
      find_method = (\<lambda>n d. None),
      find_method_from_index = (\<lambda>i. if i = 128 then Some callee_sub else None),
      get_number_of_parameters = (\<lambda>callee. 2)\<rparr>"

text \<open>A class whose only method is \<open>m\<close>, found as main, and a callee that never returns.\<close>

definition class_of_main :: "method_t \<Rightarrow> class_file_t" where
  "class_of_main m =
     \<lparr>constant_pool = [],
      find_method = (\<lambda>n d. if n = MAIN_METHOD \<and> d = MAIN_DESCRIPTOR then Some m else None),
      find_method_from_index = (\<lambda>i. None),
      get_number_of_parameters = (\<lambda>callee. 0)\<rparr>"

definition no_call ::
  "method_t \<Rightarrow> int32_t list \<Rightarrow> int32_t list list \<Rightarrow> int list
     \<Rightarrow> (error + optional_value_t \<times> frame) option" where
  "no_call callee ls h out = None"

section \<open>Basic facts\<close>

lemma ebind_Inr [simp]: "ebind (Inr x) f = f x"
  by (simp add: ebind_def)

lemma ebind_Inl [simp]: "ebind (Inl e) f = Inl e"
  by (simp add: ebind_def)

lemma array_get_in: "0 \<le> i \<Longrightarrow> i < int (length a) \<Longrightarrow> array_get a i = Inr (a ! nat i)"
  by (simp add: array_get_def)

lemma array_set_in: "0 \<le> i \<Longrightarrow> i < int (length a) \<Longrightarrow> array_set a i v = Inr (a[nat i := v])"
  by (simp add: array_set_def)

lemma as_signed32_eq: "as_signed32 k = signed_take_bit 31 k"
proof -
  define u where "u = k mod 2 ^ 32"
  have u: "0 \<le> u" "u < 2 ^ 32" by (simp_all add: u_def)
  have "(k + 2 ^ 31) mod 2 ^ 32 = (u + 2 ^ 31) mod 2 ^ 32"
    unfolding u_def by (simp add: mod_add_left_eq)
  also have "\<dots> = (if u < 2 ^ 31 then u + 2 ^ 31 else u + 2 ^ 31 - 2 ^ 32)"
  proof (cases "u < 2 ^ 31")
    case True
    with u show ?thesis by simp
  next
    case False
    with u have "(u + 2 ^ 31 - 2 ^ 32) mod 2 ^ 32 = u + 2 ^ 31 - 2 ^ 32" by simp
    moreover have "(u + 2 ^ 31 - 2 ^ 32) mod 2 ^ 32 = (u + 2 ^ 31) mod 2 ^ 32"
      by (metis mod_diff_right_eq mod_self diff_zero)
    ultimately show ?thesis using False by simp
  qed
  finally have "(k + 2 ^ 31) mod 2 ^ 32 - 2 ^ 31 = (if u < 2 ^ 31 then u else u - 2 ^ 32)"
    by simp
  then show ?thesis
    by (simp add: as_signed32_def signed_take_bit_eq_take_bit_shift take_bit_eq_mod Let_def u_def)
qed

lemma exec_binop_on_top2:
  "on_top2 s a b \<Longrightarrow> exec_binop f s = ebind (f a b) (\<lambda>r. Inr (Continue (pop2_push s r)))"
  by (cases "f a b") (simp_all add: on_top2_def exec_binop_def pop2_push_def Let_def array_get_in array_set_in)

lemma exec_iadd_on_top2:
  "on_top2 s a b \<Longrightarrow> exec_iadd s = Inr (Continue (pop2_push s (a + b)))"
  by (simp add: on_top2_def exec_iadd_def pop2_push_def Let_def array_get_in array_set_in add.commute)

lemma step_iadd: "code_at m (pc s) = Inr i_iadd \<Longrightarrow> step call cls m s = Some (exec_iadd s)"
  by (simp add: step_def)
lemma step_isub: "code_at m (pc s) = Inr i_isub \<Longrightarrow> step call cls m s = Some (exec_isub s)"
  by (simp add: step_def)
lemma step_imul: "code_at m (pc s) = Inr i_imul \<Longrightarrow> step call cls m s = Some (exec_imul s)"
  by (simp add: step_def)
lemma step_ineg: "code_at m (pc s) = Inr i_ineg \<Longrightarrow> step call cls m s = Some (exec_ineg s)"
  by (simp add: step_def)

lemma sint_add32: "sint (a + b :: int32_t) = as_signed32 (sint a + sint b)"
  by (simp add: as_signed32_eq sint_word_ariths)
lemma sint_sub32: "sint (a - b :: int32_t) = as_signed32 (sint a - sint b)"
  by (simp add: as_signed32_eq sint_word_ariths)
lemma sint_mul32: "sint (a * b :: int32_t) = as_signed32 (sint a * sint b)"
  by (simp add: as_signed32_eq sint_word_ariths)
lemma sint_neg32: "sint (- a :: int32_t) = as_signed32 (- sint a)"
  by (simp add: as_signed32_eq sint_word_ariths)

lemma code_at_method_of_code:
  "code_at (method_of_code c) a = array_get c (uint a)"
  by (simp add: code_at_def method_of_code_def)

lemma on_top2_top:
  "on_top2 s a b \<Longrightarrow> array_get (operand_stack s) (stack_idx s - 1) = Inr b"
  by (simp add: on_top2_def array_get_in)

lemma heap_get_Inr:
  "heap_get h ref = Inr array \<longleftrightarrow>
     0 \<le> sint ref \<and> sint ref < int (length h) \<and> h ! nat (sint ref) = array"
  by (auto simp add: heap_get_def array_get_def)

lemma array_set_Inr:
  "array_set a i v = Inr a' \<longleftrightarrow> 0 \<le> i \<and> i < int (length a) \<and> a' = a[nat i := v]"
  by (auto simp add: array_set_def)

lemma step_ishl: "code_at m (pc s) = Inr i_ishl \<Longrightarrow> step call cls m s = Some (exec_ishl s)"
  by (simp add: step_def)

lemma step_ishr: "code_at m (pc s) = Inr i_ishr \<Longrightarrow> step call cls m s = Some (exec_ishr s)"
  by (simp add: step_def)

lemma step_iushr: "code_at m (pc s) = Inr i_iushr \<Longrightarrow> step call cls m s = Some (exec_iushr s)"
  by (simp add: step_def)

lemma step_idiv: "code_at m (pc s) = Inr i_idiv \<Longrightarrow> step call cls m s = Some (exec_idiv s)"
  by (simp add: step_def)

lemma step_irem: "code_at m (pc s) = Inr i_irem \<Longrightarrow> step call cls m s = Some (exec_irem s)"
  by (simp add: step_def)

lemma step_goto: "code_at m (pc s) = Inr i_goto \<Longrightarrow> step call cls m s = Some (exec_goto m s)"
  by (simp add: step_def)

lemma step_ireturn: "code_at m (pc s) = Inr i_ireturn \<Longrightarrow> step call cls m s = Some (exec_ireturn s)"
  by (simp add: step_def)

lemma step_areturn: "code_at m (pc s) = Inr i_areturn \<Longrightarrow> step call cls m s = Some (exec_ireturn s)"
  by (simp add: step_def)

lemma step_newarray: "code_at m (pc s) = Inr i_newarray \<Longrightarrow> step call cls m s = Some (exec_newarray s)"
  by (simp add: step_def)

lemma step_arraylength: "code_at m (pc s) = Inr i_arraylength \<Longrightarrow> step call cls m s = Some (exec_arraylength s)"
  by (simp add: step_def)

lemma step_iastore: "code_at m (pc s) = Inr i_iastore \<Longrightarrow> step call cls m s = Some (exec_iastore s)"
  by (simp add: step_def)

lemma step_iaload: "code_at m (pc s) = Inr i_iaload \<Longrightarrow> step call cls m s = Some (exec_iaload s)"
  by (simp add: step_def)

lemmas example_defs =
  frame_with_heap_def frame_of_stack_def method_of_code_def class_of_main_def
  code_at_def array_get_def array_set_def on_top1_def on_top2_def on_top3_def
  replace_top_def pop2_push_def element_slot_def length_slot_def heap_get_def heap_add_def

lemma replicate_3: "replicate 3 x = [x, x, x]"
  by (simp add: numeral_3_eq_3)

lemma step_invokestatic:
  "code_at m (pc s) = Inr i_invokestatic \<Longrightarrow> step call cls m s = exec_invokestatic call cls m s"
  by (simp add: step_def)

lemma run_Suc_execute:
  "run (Suc n) cls m s =
     (if pc s < ucast (code_length (method_code m))
      then (case step (\<lambda>callee ls h out. execute n callee ls cls h out) cls m s of
              None \<Rightarrow> None
            | Some (Inl e) \<Rightarrow> Some (Inl e)
            | Some (Inr (Continue s')) \<Rightarrow> run n cls m s'
            | Some (Inr (Return result s')) \<Rightarrow> Some (Inr (result, s')))
      else Some (Inr (\<lparr>has_value = False, ret_value = 0\<rparr>, s)))"
  by (simp add: execute_def)

section \<open>Fuel\<close>

text \<open>
  More fuel never changes a result: once \<open>run\<close> returns with \<open>n\<close> units it returns the
  same with any larger amount. Only invokestatic uses the recursive call.
\<close>

lemma step_without_call:
  "code_at m (pc s) = Inr opc \<Longrightarrow> opc \<noteq> i_invokestatic \<Longrightarrow>
   step call cls m s = step call' cls m s"
  by (simp add: step_def)

lemma step_call_mono:
  assumes "\<And>callee ls h out r. call callee ls h out = Some r \<Longrightarrow> call' callee ls h out = Some r"
    and "step call cls m s = Some x"
  shows "step call' cls m s = Some x"
proof (cases "code_at m (pc s)")
  case (Inl e)
  with assms(2) show ?thesis by (simp add: step_def)
next
  case (Inr opc)
  show ?thesis
  proof (cases "opc = i_invokestatic")
    case False
    with Inr assms(2) show ?thesis
      by (simp add: step_without_call [of m s opc call' cls call])
  next
    case True
    with Inr have c: "code_at m (pc s) = Inr i_invokestatic" by simp
    show ?thesis
    proof (cases "invokestatic_args cls m s")
      case (Inl e)
      with assms(2) show ?thesis
        by (simp add: step_invokestatic [OF c] exec_invokestatic_def)
    next
      case (Inr a)
      obtain callee ls sp where a: "a = (callee, ls, sp)" by (cases a)
      from assms(2) Inr a obtain r where r: "call callee ls (heap s) (stdout s) = Some r"
        by (cases "call callee ls (heap s) (stdout s)")
           (simp_all add: step_invokestatic [OF c] exec_invokestatic_def)
      from assms(1) [OF r] r assms(2) Inr a show ?thesis
        by (simp add: step_invokestatic [OF c] exec_invokestatic_def)
    qed
  qed
qed

lemma run_fuel_mono:
  "run n cls m s = Some r \<Longrightarrow> run (n + k) cls m s = Some r"
proof (induction n arbitrary: m s r)
  case 0
  then show ?case by simp
next
  case (Suc n)
  let ?call = "\<lambda>callee ls h out. run n cls callee (init_frame callee ls h out)"
  let ?call' = "\<lambda>callee ls h out. run (n + k) cls callee (init_frame callee ls h out)"
  show ?case
  proof (cases "pc s < ucast (code_length (method_code m))")
    case False
    with Suc.prems show ?thesis by simp
  next
    case True
    with Suc.prems obtain x where x: "step ?call cls m s = Some x"
      by (cases "step ?call cls m s") simp_all
    have x': "step ?call' cls m s = Some x"
      by (rule step_call_mono [OF _ x]) (rule Suc.IH)
    show ?thesis
    proof (cases x)
      case (Inl e)
      with Suc.prems True x x' show ?thesis by simp
    next
      case (Inr out)
      show ?thesis
      proof (cases out)
        case (Continue s')
        with Suc.prems True x Inr have "run n cls m s' = Some r" by simp
        then have "run (n + k) cls m s' = Some r" by (rule Suc.IH)
        with True x' Inr Continue show ?thesis by simp
      next
        case (Return result s')
        with Suc.prems True x x' Inr show ?thesis by simp
      qed
    qed
  qed
qed

lemma execute_fuel_mono:
  "execute n m ls cls h out = Some r \<Longrightarrow> n \<le> n' \<Longrightarrow> execute n' m ls cls h out = Some r"
  using run_fuel_mono [of n cls m "init_frame m ls h out" r "n' - n"]
  by (simp add: execute_def)

lemma main_fuel_mono:
  "main n argc cls = Some r \<Longrightarrow> n \<le> n' \<Longrightarrow> main n' argc cls = Some r"
  by (auto simp add: main_def split: if_splits option.splits sum.splits prod.splits
        dest: execute_fuel_mono)

section \<open>Arithmetic\<close>

text \<open>
  C6. For all \<open>int32_t\<close> values \<open>a\<close> (second from top) and \<open>b\<close> (top), iadd, isub and
  imul pop both and push the sum, difference and product taken modulo \<open>2^32\<close> and read
  as signed 32-bit integers; ineg replaces the top \<open>b\<close> by its negation taken the same
  way. In particular \<open>INT_MAX + 1\<close> is \<open>INT_MIN\<close>. (\<open>m_add\<close>, \<open>m_sub\<close>, \<open>m_mul\<close> and
  \<open>m_neg\<close> are methods with the respective opcode at \<open>pc\<close>.)
\<close>

theorem arithmetic_wraps:
  assumes "on_top2 s a b"
    and "code_at m_add (pc s) = Inr i_iadd" and "code_at m_sub (pc s) = Inr i_isub"
    and "code_at m_mul (pc s) = Inr i_imul" and "code_at m_neg (pc s) = Inr i_ineg"
  shows "step call cls m_add s = Some (Inr (Continue (pop2_push s (a + b)))) \<and>
         sint (a + b) = as_signed32 (sint a + sint b) \<and>
         step call cls m_sub s = Some (Inr (Continue (pop2_push s (a - b)))) \<and>
         sint (a - b) = as_signed32 (sint a - sint b) \<and>
         step call cls m_mul s = Some (Inr (Continue (pop2_push s (a * b)))) \<and>
         sint (a * b) = as_signed32 (sint a * sint b) \<and>
         step call cls m_neg s = Some (Inr (Continue (replace_top s (- b)))) \<and>
         sint (- b) = as_signed32 (- sint b)"
proof -
  have "step call cls m_add s = Some (Inr (Continue (pop2_push s (a + b))))"
    using assms(1,2) by (simp add: step_iadd exec_iadd_on_top2)
  moreover have "step call cls m_sub s = Some (Inr (Continue (pop2_push s (a - b))))"
    using assms(1,3) by (simp add: step_isub exec_isub_def exec_binop_on_top2)
  moreover have "step call cls m_mul s = Some (Inr (Continue (pop2_push s (a * b))))"
    using assms(1,4) by (simp add: step_imul exec_imul_def exec_binop_on_top2)
  moreover have "step call cls m_neg s = Some (Inr (Continue (replace_top s (- b))))"
    using assms(1,5)
    by (simp add: step_ineg exec_ineg_def on_top2_def replace_top_def array_get_in array_set_in)
  ultimately show ?thesis
    by (simp only: sint_add32 sint_sub32 sint_mul32 sint_neg32 simp_thms)
qed

theorem arithmetic_wraps_witness:
  "on_top2 (frame_of_stack [0x7fffffff, 1] 2) 0x7fffffff 1 \<and>
   code_at (method_of_code [i_iadd]) (pc (frame_of_stack [0x7fffffff, 1] 2)) = Inr i_iadd \<and>
   code_at (method_of_code [i_isub]) (pc (frame_of_stack [0x7fffffff, 1] 2)) = Inr i_isub \<and>
   code_at (method_of_code [i_imul]) (pc (frame_of_stack [0x7fffffff, 1] 2)) = Inr i_imul \<and>
   code_at (method_of_code [i_ineg]) (pc (frame_of_stack [0x7fffffff, 1] 2)) = Inr i_ineg \<and>
   step no_call (class_of_main (method_of_code [i_iadd])) (method_of_code [i_iadd])
       (frame_of_stack [0x7fffffff, 1] 2) =
     Some (Inr (Continue (frame_of_stack [0x80000000, 1] 1\<lparr>pc := 1\<rparr>))) \<and>
   sint (0x7fffffff + 1 :: int32_t) = - (2 ^ 31) \<and>
   step no_call (class_of_main (method_of_code [i_iadd])) (method_of_code [i_isub])
       (frame_of_stack [0x7fffffff, 1] 2) =
     Some (Inr (Continue (frame_of_stack [0x7ffffffe, 1] 1\<lparr>pc := 1\<rparr>))) \<and>
   step no_call (class_of_main (method_of_code [i_iadd])) (method_of_code [i_imul])
       (frame_of_stack [0x7fffffff, 1] 2) =
     Some (Inr (Continue (frame_of_stack [0x7fffffff, 1] 1\<lparr>pc := 1\<rparr>))) \<and>
   step no_call (class_of_main (method_of_code [i_iadd])) (method_of_code [i_ineg])
       (frame_of_stack [0x7fffffff, 1] 2) =
     Some (Inr (Continue (frame_of_stack [0x7fffffff, 0xffffffff] 2\<lparr>pc := 1\<rparr>)))"
proof -
  let ?s = "frame_of_stack [0x7fffffff, 1] 2"
  have t: "on_top2 ?s 0x7fffffff 1"
    by (simp add: example_defs)
  have c1: "code_at (method_of_code [i_iadd]) (pc ?s) = Inr i_iadd"
    by (simp add: example_defs)
  have c2: "code_at (method_of_code [i_isub]) (pc ?s) = Inr i_isub"
    by (simp add: example_defs)
  have c3: "code_at (method_of_code [i_imul]) (pc ?s) = Inr i_imul"
    by (simp add: example_defs)
  have c4: "code_at (method_of_code [i_ineg]) (pc ?s) = Inr i_ineg"
    by (simp add: example_defs)
  show ?thesis
    using t c1 c2 c3 c4
      arithmetic_wraps [OF t c1 c2 c3 c4, of no_call "class_of_main (method_of_code [i_iadd])"]
    by (simp add: example_defs)
qed

section \<open>Shifts\<close>

text \<open>
  The count the shift instructions use, \<open>uint b mod 32\<close>, is the count masked with 31.
  A left shift by \<open>k\<close> multiplies by \<open>2^k\<close> modulo \<open>2^32\<close>; the right shift of the signed
  value divides it by \<open>2^k\<close> rounding down, which extends the sign; the right shift of
  the unsigned value divides the unsigned value by \<open>2^k\<close>.
\<close>

lemma count_mod_32: "nat (uint (b :: int32_t) mod 32) = unat (b AND 31)"
proof -
  have "(mask 5 :: int32_t) = 31" by (simp add: mask_eq_exp_minus_1)
  then have "b AND 31 = word_of_int (uint b mod 2 ^ 5)"
    using and_mask_mod_2p [of b 5] by simp
  moreover have "0 \<le> uint b mod 32" "uint b mod 32 < 2 ^ 32"
    by (simp_all add: order_less_trans [OF pos_mod_bound [of 32 "uint b"]])
  ultimately have "uint (b AND 31) = uint b mod 32"
    by (simp add: uint_word_of_int_eq take_bit_int_eq_self)
  then show ?thesis
    by (simp only: unat_eq_nat_uint)
qed

lemma push_bit_mult32: "push_bit k (a :: int32_t) = a * 2 ^ k"
  by (simp add: push_bit_eq_mult)

lemma sint_signed_drop_bit32: "sint (signed_drop_bit k (a :: int32_t)) = sint a div 2 ^ k"
  by (simp add: sint_signed_drop_bit_eq drop_bit_eq_div)

lemma uint_drop_bit32: "uint (drop_bit k (a :: int32_t)) = uint a div 2 ^ k"
proof -
  have "uint (drop_bit k a) = drop_bit k (take_bit 32 (uint a))"
    using unsigned_drop_bit_eq [of k a, where ?'a = int] by simp
  also have "take_bit 32 (uint a) = uint a"
    using uint_lt2p [of a] by (simp add: take_bit_int_eq_self)
  finally show ?thesis
    by (simp add: drop_bit_eq_div)
qed

text \<open>
  Counts outside \<open>0..31\<close>: \<open>1 << 32\<close> is 1, \<open>-8 >> 33\<close> is \<open>-4\<close>, and \<open>-1\<close> shifted right
  as unsigned by \<open>-1\<close> is 1.
\<close>

lemma shift_examples:
  "c_shl 1 32 = Inr 1" "c_shr (- 8) 33 = Inr (- 4)" "c_ushr 0xffffffff 0xffffffff = Inr 1"
proof -
  show "c_shl 1 32 = Inr 1"
    by (simp add: c_shl_def)
  have "signed_drop_bit 1 (- 8 :: int32_t) = - 4"
  proof (rule signed_word_eqI [where ?'a = int])
    show "sint (signed_drop_bit 1 (- 8 :: int32_t)) = sint (- 4 :: int32_t)"
      by (simp add: sint_signed_drop_bit32)
  qed
  then show "c_shr (- 8) 33 = Inr (- 4)"
    by (simp add: c_shr_def)
  have "nat (uint (0xffffffff :: int32_t) mod 32) = 31"
    by simp
  moreover have "drop_bit 31 (0xffffffff :: int32_t) = 1"
    by (simp add: drop_bit_eq_div)
  ultimately show "c_ushr 0xffffffff 0xffffffff = Inr 1"
    by (simp only: c_ushr_def)
qed

text \<open>
  C3. For all \<open>int32_t\<close> operands \<open>a\<close> (second from top) and \<open>b\<close> (top), with
  \<open>k = b & 31\<close>: ishl pops both and pushes \<open>a\<close> shifted left by \<open>k\<close>; ishr pushes \<open>a\<close>
  shifted right by \<open>k\<close> arithmetically, the signed value of the result being the
  signed value of \<open>a\<close> divided by \<open>2^k\<close> rounding down; iushr pushes \<open>a\<close> shifted right by
  \<open>k\<close> logically, the unsigned value of the result being the unsigned value of \<open>a\<close>
  divided by \<open>2^k\<close>. \<open>b\<close> is any value, negative or above 31 included. (\<open>m_shl\<close>,
  \<open>m_shr\<close> and \<open>m_ushr\<close> are methods with the respective opcode at \<open>pc\<close>.)
\<close>

theorem shifts_mask_count:
  assumes "on_top2 s a b" and "k = unat (b AND 31)"
    and "code_at m_shl (pc s) = Inr i_ishl" and "code_at m_shr (pc s) = Inr i_ishr"
    and "code_at m_ushr (pc s) = Inr i_iushr"
  shows "step call cls m_shl s = Some (Inr (Continue (pop2_push s (push_bit k a)))) \<and>
         push_bit k a = a * 2 ^ k \<and>
         step call cls m_shr s = Some (Inr (Continue (pop2_push s (signed_drop_bit k a)))) \<and>
         sint (signed_drop_bit k a) = sint a div 2 ^ k \<and>
         step call cls m_ushr s = Some (Inr (Continue (pop2_push s (drop_bit k a)))) \<and>
         uint (drop_bit k a) = uint a div 2 ^ k"
proof -
  have k: "nat (uint b mod 32) = k"
    by (simp only: count_mod_32 assms(2))
  have "step call cls m_shl s = Some (Inr (Continue (pop2_push s (push_bit k a))))"
    by (simp add: step_ishl [OF assms(3)] exec_ishl_def exec_binop_on_top2 [OF assms(1)]
          c_shl_def k)
  moreover have "step call cls m_shr s = Some (Inr (Continue (pop2_push s (signed_drop_bit k a))))"
    by (simp add: step_ishr [OF assms(4)] exec_ishr_def exec_binop_on_top2 [OF assms(1)]
          c_shr_def k)
  moreover have "step call cls m_ushr s = Some (Inr (Continue (pop2_push s (drop_bit k a))))"
    by (simp add: step_iushr [OF assms(5)] exec_iushr_def exec_binop_on_top2 [OF assms(1)]
          c_ushr_def k)
  ultimately show ?thesis
    by (simp only: push_bit_mult32 sint_signed_drop_bit32 uint_drop_bit32 simp_thms)
qed

theorem shifts_mask_count_witness:
  "on_top2 (frame_of_stack [- 8, 33] 2) (- 8) 33 \<and>
   (1 :: nat) = unat (33 AND 31 :: int32_t) \<and>
   code_at (method_of_code [i_ishl]) (pc (frame_of_stack [- 8, 33] 2)) = Inr i_ishl \<and>
   code_at (method_of_code [i_ishr]) (pc (frame_of_stack [- 8, 33] 2)) = Inr i_ishr \<and>
   code_at (method_of_code [i_iushr]) (pc (frame_of_stack [- 8, 33] 2)) = Inr i_iushr \<and>
   step no_call (class_of_main (method_of_code [i_ishl])) (method_of_code [i_ishl])
       (frame_of_stack [- 8, 33] 2) =
     Some (Inr (Continue (frame_of_stack [- 16, 33] 1\<lparr>pc := 1\<rparr>))) \<and>
   step no_call (class_of_main (method_of_code [i_ishl])) (method_of_code [i_ishr])
       (frame_of_stack [- 8, 33] 2) =
     Some (Inr (Continue (frame_of_stack [- 4, 33] 1\<lparr>pc := 1\<rparr>))) \<and>
   step no_call (class_of_main (method_of_code [i_ishl])) (method_of_code [i_iushr])
       (frame_of_stack [- 8, 33] 2) =
     Some (Inr (Continue (frame_of_stack [0x7ffffffc, 33] 1\<lparr>pc := 1\<rparr>)))"
proof -
  let ?s = "frame_of_stack [- 8, 33] 2"
  have t: "on_top2 ?s (- 8) 33"
    by (simp add: example_defs)
  have k: "(1 :: nat) = unat (33 AND 31 :: int32_t)"
    by simp
  have c1: "code_at (method_of_code [i_ishl]) (pc ?s) = Inr i_ishl"
    by (simp add: example_defs)
  have c2: "code_at (method_of_code [i_ishr]) (pc ?s) = Inr i_ishr"
    by (simp add: example_defs)
  have c3: "code_at (method_of_code [i_iushr]) (pc ?s) = Inr i_iushr"
    by (simp add: example_defs)
  have r1: "push_bit 1 (- 8 :: int32_t) = - 16"
    by simp
  have r2: "signed_drop_bit 1 (- 8 :: int32_t) = - 4"
  proof (rule signed_word_eqI [where ?'a = int])
    show "sint (signed_drop_bit 1 (- 8 :: int32_t)) = sint (- 4 :: int32_t)"
      by (simp add: sint_signed_drop_bit32)
  qed
  have r3: "drop_bit 1 (- 8 :: int32_t) = 0x7ffffffc"
    by (simp add: drop_bit_eq_div)
  show ?thesis
    using t k c1 c2 c3
      shifts_mask_count [OF t k c1 c2 c3, of no_call "class_of_main (method_of_code [i_ishl])"]
    by (simp add: example_defs r1 r2 r3)
qed

section \<open>Division and remainder\<close>

text \<open>
  idiv and irem fail the assertion exactly when the divisor on top is 0; otherwise they
  replace the two operands by the quotient truncated towards zero, or by the remainder
  with the sign of the dividend, except for \<open>INT_MIN / -1\<close>, where the C operators have
  no defined result.
\<close>

lemma idiv_irem_by_zero:
  assumes "on_top2 s a 0"
  shows "exec_idiv s = Inl Assertion_Failure" and "exec_irem s = Inl Assertion_Failure"
  by (simp_all add: exec_idiv_def exec_irem_def on_top2_top [OF assms])

lemma idiv_irem_defined:
  assumes "on_top2 s a b" and "b \<noteq> 0" and "\<not> (sint a = - (2 ^ 31) \<and> sint b = - 1)"
  shows "exec_idiv s = Inr (Continue (pop2_push s (word_of_int (sint a sdiv sint b))))"
    and "exec_irem s = Inr (Continue (pop2_push s (word_of_int (sint a smod sint b))))"
  using assms(2,3)
  by (simp_all add: exec_idiv_def exec_irem_def on_top2_top [OF assms(1)]
        exec_binop_on_top2 [OF assms(1)] c_div_def c_rem_def)

lemma idiv_irem_overflow:
  assumes "on_top2 s a b" and "sint a = - (2 ^ 31)" and "sint b = - 1"
  shows "exec_idiv s = Inl Undefined_Behaviour" and "exec_irem s = Inl Undefined_Behaviour"
proof -
  from assms(3) have "b \<noteq> 0" by auto
  with assms(2,3) show "exec_idiv s = Inl Undefined_Behaviour"
    and "exec_irem s = Inl Undefined_Behaviour"
    by (simp_all add: exec_idiv_def exec_irem_def on_top2_top [OF assms(1)]
          exec_binop_on_top2 [OF assms(1)] c_div_def c_rem_def)
qed

text \<open>
  C5. idiv with \<open>a = INT_MIN\<close> below \<open>b = -1\<close> on top: the divisor is not 0, so the
  assertion passes, and the code evaluates \<open>INT_MIN / -1\<close>, whose behaviour is
  undefined. So idiv neither aborts only for \<open>b = 0\<close> nor pushes a quotient whenever
  \<open>b \<noteq> 0\<close>.
\<close>

theorem idiv_int_min_by_minus_one_undefined:
  "step no_call (class_of_main (method_of_code [i_idiv])) (method_of_code [i_idiv])
     (frame_of_stack [0x80000000, 0xffffffff] 2) = Some (Inl Undefined_Behaviour)"
proof -
  have "code_at (method_of_code [i_idiv]) (pc (frame_of_stack [0x80000000, 0xffffffff] 2)) = Inr i_idiv"
    by (simp add: code_at_method_of_code frame_of_stack_def array_get_def)
  moreover have "on_top2 (frame_of_stack [0x80000000, 0xffffffff] 2) 0x80000000 0xffffffff"
    by (simp add: on_top2_def frame_of_stack_def)
  moreover have "sint (0x80000000 :: int32_t) = - (2 ^ 31)" "sint (0xffffffff :: int32_t) = - 1"
    by simp_all
  ultimately show ?thesis
    by (simp add: step_idiv idiv_irem_overflow)
qed

section \<open>Branches\<close>

text \<open>
  \<open>(b1 << 8) | b2\<close> on four byte pairs: for \<open>0xff 0xf4\<close> (the offset \<open>-12\<close>) it is the
  offset of the class-file format; for \<open>0x00 0x80\<close> (\<open>+128\<close>) the sign-extended low byte
  makes it \<open>-128\<close>; for \<open>0xff 0x00\<close> (\<open>-256\<close>) nothing sign-extends the 16 bits and it is
  \<open>+65280\<close>; for \<open>0x01 0x7f\<close> it is \<open>+383\<close> as it should be.
\<close>

lemma b1_b2_0_128: "b1_b2 0x00 0x80 = - 128"
  by (simp add: b1_b2_def)

lemma b1_b2_examples:
  "scast (b1_b2 0xff 0xf4) = spec_branch_offset 0xff 0xf4"
  "scast (b1_b2 0x01 0x7f) = spec_branch_offset 0x01 0x7f"
  "scast (b1_b2 0x00 0x80) = (- 128 :: size_t)" "spec_branch_offset 0x00 0x80 = 128"
  "scast (b1_b2 0xff 0x00) = (65280 :: size_t)" "spec_branch_offset 0xff 0x00 = - 256"
  by (simp_all add: b1_b2_def spec_branch_offset_def)

text \<open>
  A taken branch moves \<open>pc\<close> by \<open>(b1 << 8) | b2\<close>, relative to the address of the
  branch opcode.
\<close>

lemma branch_taken:
  assumes "code_at m (pc s + 1) = Inr b1" and "code_at m (pc s + 2) = Inr b2"
  shows "exec_goto m s = Inr (Continue (s\<lparr>pc := pc s + scast (b1_b2 b1 b2)\<rparr>))"
    and "on_top1 s a \<Longrightarrow> cond a \<Longrightarrow>
         exec_if cond m s =
           Inr (Continue (s\<lparr>pc := pc s + scast (b1_b2 b1 b2), stack_idx := stack_idx s - 1\<rparr>))"
    and "on_top2 s a b \<Longrightarrow> cond2 a b \<Longrightarrow>
         exec_if_icmp cond2 m s =
           Inr (Continue (s\<lparr>pc := pc s + scast (b1_b2 b1 b2), stack_idx := stack_idx s - 2\<rparr>))"
  using assms
  by (simp_all add: exec_goto_def exec_if_def exec_if_icmp_def branch_target_def
        on_top1_def on_top2_def array_get_in)

text \<open>
  The offset the code computes is the offset of the class-file format exactly when the
  high byte is \<open>0xff\<close> for a low byte with its high bit set, and when the high byte has
  its high bit clear for any other low byte: that is, for the offsets \<open>-128..-1\<close> and for
  the offsets in \<open>0..32767\<close> whose low byte is below \<open>0x80\<close>.
\<close>

lemma min_7_31: "min (7 :: nat) (min 31 n) = min 7 n"
  by simp

lemma bit_u1_top: "bit (b :: u1) k \<Longrightarrow> 7 \<le> k \<Longrightarrow> bit b 7"
proof -
  assume b: "bit b k" and k: "7 \<le> k"
  from b have "k < 8" using bit_imp_le_length [of b k] by simp
  with k have "k = 7" by simp
  with b show ?thesis by simp
qed

lemma low_byte_negative:
  "bit b2 7 \<Longrightarrow> scast (b1_b2 b1 b2) = (scast b2 :: size_t)"
  apply (simp add: b1_b2_def)
  apply (rule bit_word_eqI)
  apply (auto simp add: bit_simps min_7_31)
  done

lemma low_byte_positive:
  "\<not> bit b2 7 \<Longrightarrow> scast (b1_b2 b1 b2) = (push_bit 8 (ucast b1) OR ucast b2 :: size_t)"
  apply (simp add: b1_b2_def)
  apply (rule bit_word_eqI)
  apply (auto simp add: bit_simps min_def dest: bit_imp_le_length split: if_splits)
  subgoal for n using bit_u1_top [of b2 n] by simp
  subgoal for n using bit_u1_top [of b2 n] by simp
  done

lemma spec_high_byte_positive:
  "\<not> bit b1 7 \<Longrightarrow> spec_branch_offset b1 b2 = push_bit 8 (ucast b1) OR ucast b2"
  apply (simp add: spec_branch_offset_def)
  apply (rule bit_word_eqI)
  apply (auto simp add: bit_simps min_def dest: bit_imp_le_length split: if_splits)
  subgoal for n using bit_u1_top [of b1 "n - 8"] by simp
  done

lemma spec_high_byte_negative:
  "bit b1 7 \<Longrightarrow> bit (spec_branch_offset b1 b2) 63"
  by (simp add: spec_branch_offset_def bit_simps)

lemma spec_bits_8_15:
  "k < 8 \<Longrightarrow> bit (spec_branch_offset b1 b2) (8 + k) = bit b1 k"
  by (auto simp add: spec_branch_offset_def bit_simps dest: bit_imp_le_length)


lemma scast_low_byte_bits:
  "bit b2 7 \<Longrightarrow> k < 8 \<Longrightarrow> bit (scast (b2 :: u1) :: size_t) (8 + k)"
  by (simp add: bit_simps)

lemma spec_all_ones_high_byte:
  "bit b2 7 \<Longrightarrow> spec_branch_offset (- 1) b2 = scast b2"
  apply (simp only: spec_branch_offset_def)
  apply (rule bit_word_eqI)
  apply (auto simp add: bit_simps min_def dest: bit_imp_le_length split: if_splits)
  subgoal for n by (cases "n = 7") simp_all
  done

lemma zero_extended_not_negative:
  "\<not> bit (push_bit 8 (ucast (b1 :: u1)) OR ucast (b2 :: u1) :: size_t) 63"
  by (auto simp add: bit_simps dest: bit_imp_le_length)

lemma branch_offset_agrees_iff:
  "scast (b1_b2 b1 b2) = spec_branch_offset b1 b2 \<longleftrightarrow>
     (if bit b2 7 then b1 = 0xff else \<not> bit b1 7)"
proof (cases "bit b2 7")
  case True
  have "scast b2 = spec_branch_offset b1 b2 \<longleftrightarrow> b1 = 0xff"
  proof
    assume e: "scast b2 = spec_branch_offset b1 b2"
    have "bit b1 k" if "k < 8" for k
      using that scast_low_byte_bits [OF True that] spec_bits_8_15 [OF that, of b1 b2]
      by (simp add: e)
    then have "b1 = - 1"
      by (intro bit_word_eqI) simp
    then show "b1 = 0xff" by simp
  next
    assume "b1 = 0xff"
    then have "b1 = - 1" by simp
    with True show "scast b2 = spec_branch_offset b1 b2"
      by (simp only: spec_all_ones_high_byte)
  qed
  with True show ?thesis
    by (simp add: low_byte_negative)
next
  case False
  have "push_bit 8 (ucast b1) OR ucast b2 = spec_branch_offset b1 b2 \<longleftrightarrow> \<not> bit b1 7"
  proof
    assume e: "push_bit 8 (ucast b1) OR ucast b2 = spec_branch_offset b1 b2"
    show "\<not> bit b1 7"
    proof
      assume "bit b1 7"
      then have "bit (spec_branch_offset b1 b2) 63" by (rule spec_high_byte_negative)
      with zero_extended_not_negative [of b1 b2] show False by (simp add: e)
    qed
  next
    assume "\<not> bit b1 7"
    then show "push_bit 8 (ucast b1) OR ucast b2 = spec_branch_offset b1 b2"
      by (simp add: spec_high_byte_positive)
  qed
  with False show ?thesis
    by (simp add: low_byte_positive)
qed

text \<open>
  C1. A goto at address 0 with the offset bytes \<open>0x00 0x80\<close>: the class-file format
  gives the target \<open>0 + 128\<close>. The code reads the low byte as \<open>int8_t\<close>, so the offset
  is \<open>-128\<close> and the new \<open>pc\<close> is \<open>2^64 - 128\<close>.
\<close>

theorem goto_offset_128_jumps_back:
  "step no_call (class_of_main far_goto) far_goto (frame_of_stack [] 0) =
     Some (Inr (Continue (frame_of_stack [] 0\<lparr>pc := - 128\<rparr>))) \<and>
   pc (frame_of_stack [] 0) + spec_branch_offset 0x00 0x80 = 128"
proof -
  have "code_at far_goto (pc (frame_of_stack [] 0)) = Inr i_goto"
    by (simp add: far_goto_def code_at_method_of_code frame_of_stack_def array_get_def)
  moreover have "branch_target far_goto (pc (frame_of_stack [] 0)) = Inr (- 128)"
    by (simp add: far_goto_def code_at_method_of_code frame_of_stack_def array_get_def
          branch_target_def b1_b2_0_128)
  moreover have "spec_branch_offset 0x00 0x80 = 128"
    by (simp add: spec_branch_offset_def)
  ultimately show ?thesis
    by (simp add: step_goto exec_goto_def frame_of_stack_def)
qed

text \<open>
  With the \<open>pc\<close> beyond \<open>code_length\<close> the loop ends: \<open>far_goto\<close> returns void and never
  reaches the bipush and ireturn its goto points to.
\<close>

lemma far_goto_returns_void:
  "execute 2 far_goto [] (class_of_main far_goto) [] [] =
     Some (Inr (\<lparr>has_value = False, ret_value = 0\<rparr>,
                \<lparr>pc = - 128, operand_stack = [0, 0, 0, 0], stack_idx = 0, locals = [],
                 heap = [], stdout = []\<rparr>))"
  by code_simp

section \<open>Bytes without a case\<close>

lemma step_undefined_opcode:
  "code_at m (pc s) = Inr opc \<Longrightarrow> \<not> defined_opcode opc \<Longrightarrow>
   step call cls m s = Some (Inr (Continue s))"
  by (auto simp add: step_def defined_opcode_def)

lemma run_undefined_opcode:
  assumes "pc s < ucast (code_length (method_code m))"
    and "code_at m (pc s) = Inr opc" and "\<not> defined_opcode opc"
  shows "run n cls m s = None"
proof (induction n)
  case 0
  show ?case by simp
next
  case (Suc n)
  with assms show ?case
    by (simp add: step_undefined_opcode)
qed

text \<open>
  C4. An opcode byte outside the subset does not abort execution: the \<open>switch\<close> has
  no \<open>default\<close>, the frame is unchanged and the loop runs again at the same \<open>pc\<close>. For
  a main method that starts with the byte \<open>0x09\<close> no amount of fuel lets \<open>main\<close>
  finish: it neither aborts nor returns.
\<close>

theorem unknown_opcode_never_returns:
  "\<forall>n. main n 2 (class_of_main lconst_0_main) = None"
proof
  fix n
  let ?s = "init_frame lconst_0_main (replicate 4 0) heap_init []"
  have "pc ?s < ucast (code_length (method_code lconst_0_main))"
    by (simp add: init_frame_def lconst_0_main_def method_of_code_def)
  moreover have "code_at lconst_0_main (pc ?s) = Inr 0x09"
    by (simp add: init_frame_def lconst_0_main_def code_at_method_of_code array_get_def)
  moreover have "\<not> defined_opcode 0x09"
    by (simp add: defined_opcode_def)
  ultimately have "run n (class_of_main lconst_0_main) lconst_0_main ?s = None"
    by (rule run_undefined_opcode)
  moreover have "unat (max_locals (method_code lconst_0_main)) = 4"
    by (simp add: lconst_0_main_def method_of_code_def)
  ultimately show "main n 2 (class_of_main lconst_0_main) = None"
    by (simp add: main_def class_of_main_def execute_def)
qed

section \<open>Arrays\<close>

lemma exec_arraylength_on_top1:
  "on_top1 s ref \<Longrightarrow>
   exec_arraylength s = ebind (length_slot (heap s) ref) (\<lambda>len. Inr (Continue (replace_top s len)))"
  by (cases "heap_get (heap s) ref"; cases "length_slot (heap s) ref")
     (simp_all add: on_top1_def exec_arraylength_def length_slot_def replace_top_def
        array_get_in array_set_in)

lemma exec_iaload_on_top2:
  "on_top2 s ref i \<Longrightarrow>
   exec_iaload s = ebind (element_slot (heap s) ref i) (\<lambda>x. Inr (Continue (pop2_push s x)))"
  by (cases "heap_get (heap s) ref"; cases "element_slot (heap s) ref i")
     (simp_all add: on_top2_def exec_iaload_def element_slot_def pop2_push_def Let_def
        array_get_in array_set_in)

lemma exec_iastore_on_top3:
  "on_top3 s ref i v \<Longrightarrow>
   exec_iastore s =
     ebind (heap_get (heap s) ref) (\<lambda>array.
     ebind (array_set array (sint (i + 1)) v) (\<lambda>array'.
       Inr (Continue (s\<lparr>heap := (heap s)[nat (sint ref) := array'],
                         stack_idx := stack_idx s - 3, pc := pc s + 1\<rparr>))))"
  by (simp add: on_top3_def exec_iastore_def array_get_in)

lemma element_slot_update:
  assumes "heap_get h ref = Inr array" and "array_set array (sint (i + 1)) v = Inr array'"
  shows "element_slot (h[nat (sint ref) := array']) ref i = Inr v"
proof -
  from assms(1) have r: "0 \<le> sint ref" "sint ref < int (length h)"
    by (simp_all add: heap_get_Inr)
  from assms(2) have i: "0 \<le> sint (i + 1)" "sint (i + 1) < int (length array)"
    and a': "array' = array[nat (sint (i + 1)) := v]"
    by (simp_all add: array_set_Inr)
  from r i show ?thesis
    by (simp add: element_slot_def heap_get_def array_get_in a')
qed

lemma length_slot_update:
  assumes "heap_get h ref = Inr array" and "array_set array 0 v = Inr array'"
  shows "length_slot (h[nat (sint ref) := array']) ref = Inr v"
proof -
  from assms(1) have r: "0 \<le> sint ref" "sint ref < int (length h)"
    by (simp_all add: heap_get_Inr)
  from assms(2) have i: "0 < length array" and a': "array' = array[0 := v]"
    by (simp_all add: array_set_Inr)
  from r i show ?thesis
    by (simp add: length_slot_def heap_get_def array_get_in a')
qed

lemma sint_succ32: "sint (n :: int32_t) < 2 ^ 31 - 1 \<Longrightarrow> sint (n + 1) = sint n + 1"
proof -
  assume a: "sint n < 2 ^ 31 - 1"
  have "- (2 ^ 31) \<le> sint n" using sint_ge [of n] by simp
  with a show ?thesis
    by (simp add: sint_word_ariths signed_take_bit_int_eq_self)
qed

lemma uint_scast_nonneg: "0 \<le> sint (w :: int32_t) \<Longrightarrow> uint (scast w :: size_t) = sint w"
proof -
  assume a: "0 \<le> sint w"
  have "sint w < 2 ^ 31" using sint_lt [of w] by simp
  then have b: "sint w < 2 ^ 64" by simp
  have "uint (scast w :: size_t) = take_bit 64 (sint w)"
    by (simp only: scast_eq uint_word_of_int_eq) simp
  also have "\<dots> = sint w"
    using a b by (simp only: take_bit_int_eq_self)
  finally show ?thesis .
qed

lemma zero_fill_zeros:
  "0 \<le> i \<Longrightarrow> n < int (length a) \<Longrightarrow> (\<forall>j. i \<le> j \<and> j \<le> n \<longrightarrow> a ! nat j = 0) \<Longrightarrow>
   zero_fill a i n = Inr a"
proof (induction a i n rule: zero_fill.induct)
  case (1 array i n)
  show ?case
  proof (cases "i \<le> n")
    case True
    with "1.prems" have z: "array ! nat i = 0" by simp
    from True "1.prems" have s: "array_set array i 0 = Inr array"
      by (simp add: array_set_in) (metis z list_update_id)
    have "zero_fill array (i + 1) n = Inr array"
      using "1.IH" [OF True s] "1.prems" by simp
    with True s show ?thesis
      by (subst zero_fill.simps) simp
  next
    case False
    then show ?thesis by (subst zero_fill.simps) simp
  qed
qed

lemma zero_fill_fresh:
  assumes "0 \<le> sint (n :: int32_t)"
  shows "zero_fill (n # replicate (nat (sint n)) 0) 1 (sint n) = Inr (n # replicate (nat (sint n)) 0)"
proof (rule zero_fill_zeros)
  show "(0 :: int) \<le> 1" by simp
  show "sint n < int (length (n # replicate (nat (sint n)) 0))" using assms by simp
  show "\<forall>j. 1 \<le> j \<and> j \<le> sint n \<longrightarrow> (n # replicate (nat (sint n)) 0) ! nat j = 0"
  proof (intro allI impI)
    fix j :: int
    assume j: "1 \<le> j \<and> j \<le> sint n"
    then obtain k where k: "nat j = Suc k" by (cases "nat j") auto
    with j have "k < nat (sint n)" by linarith
    then show "(n # replicate (nat (sint n)) 0) ! nat j = 0" by (simp add: k)
  qed
qed

lemma calloc_int32_small:
  "0 \<le> sint (k :: int32_t) \<Longrightarrow> calloc_int32 (scast k) = Some (replicate (nat (sint k)) 0)"
proof -
  assume a: "0 \<le> sint k"
  have "sint k < 2 ^ 31" using sint_lt [of k] by simp
  then have "4 * sint k < 2 ^ 64" by simp
  with a show ?thesis
    by (simp add: calloc_int32_def uint_scast_nonneg unat_eq_nat_uint)
qed

lemma alloc_fresh:
  assumes "0 \<le> sint (n :: int32_t)" and "sint n < 2 ^ 31 - 1"
  shows "calloc_int32 (scast (n + 1)) = Some (0 # replicate (nat (sint n)) 0)"
proof -
  have s1: "sint (n + 1) = sint n + 1" using assms(2) by (rule sint_succ32)
  with assms(1) have "0 \<le> sint (n + 1)" by simp
  then have "calloc_int32 (scast (n + 1)) = Some (replicate (nat (sint (n + 1))) 0)"
    by (rule calloc_int32_small)
  moreover have "nat (sint n + 1) = Suc (nat (sint n))"
    using assms(1) by simp
  ultimately show ?thesis
    by (simp only: s1 replicate_Suc)
qed

lemma exec_newarray_completes:
  assumes "on_top1 s n" and "0 \<le> sint n" and "sint n < 2 ^ 31 - 1"
  shows "exec_newarray s =
           Inr (Continue (s\<lparr>operand_stack :=
                               (operand_stack s)[nat (stack_idx s - 1) := word_of_nat (length (heap s))],
                             heap := heap s @ [n # replicate (nat (sint n)) 0],
                             pc := pc s + 2\<rparr>))"
proof -
  have top: "array_get (operand_stack s) (stack_idx s - 1) = Inr n"
    using assms(1) by (simp add: on_top1_def array_get_in)
  have put: "array_set (operand_stack s) (stack_idx s - 1) r =
               Inr ((operand_stack s)[nat (stack_idx s - 1) := r])" for r
    using assms(1) by (simp add: on_top1_def array_set_in)
  have c: "calloc_int32 (scast (n + 1)) = Some (0 # replicate (nat (sint n)) 0)"
    using assms(2,3) by (rule alloc_fresh)
  have l: "array_set (0 # replicate (nat (sint n)) 0) 0 n = Inr (n # replicate (nat (sint n)) 0)"
    by (simp add: array_set_def)
  have z: "zero_fill (n # replicate (nat (sint n)) 0) 1 (sint n) = Inr (n # replicate (nat (sint n)) 0)"
    using assms(2) by (rule zero_fill_fresh)
  show ?thesis
    unfolding exec_newarray_def
    by (simp only: top ebind_Inr c option.case l z heap_add_def prod.case put)
qed

lemma exec_newarray_int_max:
  assumes "on_top1 s n" and "sint n = 2 ^ 31 - 1"
  shows "exec_newarray s = Inl Undefined_Behaviour"
proof -
  have top: "array_get (operand_stack s) (stack_idx s - 1) = Inr n"
    using assms(1) by (simp add: on_top1_def array_get_in)
  have "word_of_int (sint n) = n" by simp
  with assms(2) have n: "n = 0x7fffffff" by simp
  have "calloc_int32 (scast (0x7fffffff + 1 :: int32_t)) = None"
    by (simp add: calloc_int32_def)
  then show ?thesis
    by (simp add: exec_newarray_def top n)
qed

lemma sint_word_of_nat32:
  "k < 2 ^ 31 \<Longrightarrow> sint (word_of_nat k :: int32_t) = int k"
proof -
  assume a: "k < 2 ^ 31"
  then have "int k < 2 ^ 31" by (metis of_nat_less_iff of_nat_numeral of_nat_power)
  moreover have "sint (word_of_nat k :: int32_t) = signed_take_bit 31 (int k)"
    by (simp add: signed_of_nat)
  ultimately show ?thesis
    by (simp add: signed_take_bit_int_eq_self)
qed

lemma heap_get_appended:
  assumes "length h < 2 ^ 31"
  shows "heap_get (h @ [array]) (word_of_nat (length h)) = Inr array"
  by (simp add: heap_get_def array_get_def sint_word_of_nat32 [OF assms])

text \<open>
  C7. If iastore runs to completion with \<open>ref\<close>, \<open>i\<close>, \<open>v\<close> on the stack, it has written
  \<open>v\<close> to slot \<open>i + 1\<close> of the buffer at \<open>ref\<close>, and an iaload with \<open>ref\<close>, \<open>i\<close> on the
  stack of any later frame whose heap still holds that slot unchanged replaces them by
  \<open>v\<close>. Both instructions address \<open>element_slot h ref i\<close>.
\<close>

theorem iastore_then_iaload:
  assumes "code_at m (pc s) = Inr i_iastore"
    and "on_top3 s ref i v"
    and "step call cls m s = Some (Inr (Continue s1))"
  shows "heap s1 = (heap s)[nat (sint ref) := (heap s ! nat (sint ref))[nat (sint (i + 1)) := v]] \<and>
         element_slot (heap s1) ref i = Inr v \<and>
         (code_at m2 (pc s2) = Inr i_iaload \<and> on_top2 s2 ref i \<and>
          element_slot (heap s2) ref i = element_slot (heap s1) ref i \<longrightarrow>
            step call2 cls2 m2 s2 = Some (Inr (Continue (pop2_push s2 v))))"
proof -
  from assms have ex: "exec_iastore s = Inr (Continue s1)"
    by (simp add: step_iastore)
  then obtain array where a: "heap_get (heap s) ref = Inr array"
    by (cases "heap_get (heap s) ref") (simp_all add: exec_iastore_on_top3 [OF assms(2)])
  with ex obtain array' where a': "array_set array (sint (i + 1)) v = Inr array'"
    by (cases "array_set array (sint (i + 1)) v") (simp_all add: exec_iastore_on_top3 [OF assms(2)])
  from ex a a' have s1: "s1 = s\<lparr>heap := (heap s)[nat (sint ref) := array'],
                                stack_idx := stack_idx s - 3, pc := pc s + 1\<rparr>"
    by (simp add: exec_iastore_on_top3 [OF assms(2)])
  have h: "heap s1 = (heap s)[nat (sint ref) := (heap s ! nat (sint ref))[nat (sint (i + 1)) := v]]"
    using a a' by (simp add: s1 heap_get_Inr array_set_Inr)
  have e: "element_slot (heap s1) ref i = Inr v"
    using element_slot_update [OF a a'] by (simp add: s1)
  show ?thesis
    using h e by (auto simp add: step_iaload exec_iaload_on_top2)
qed

theorem iastore_then_iaload_witness:
  "code_at (method_of_code [i_iastore]) (pc (frame_with_heap [0, 1, 42, 0] 3 [[2, 0, 0]])) =
     Inr i_iastore \<and>
   on_top3 (frame_with_heap [0, 1, 42, 0] 3 [[2, 0, 0]]) 0 1 42 \<and>
   step no_call (class_of_main (method_of_code [i_iastore])) (method_of_code [i_iastore])
       (frame_with_heap [0, 1, 42, 0] 3 [[2, 0, 0]]) =
     Some (Inr (Continue ((frame_with_heap [0, 1, 42, 0] 0 [[2, 0, 42]])\<lparr>pc := 1\<rparr>))) \<and>
   element_slot [[2, 0, 42]] 0 1 = Inr 42 \<and>
   step no_call (class_of_main (method_of_code [i_iaload])) (method_of_code [i_iaload])
       (frame_with_heap [0, 1, 42, 0] 2 [[2, 0, 42]]) =
     Some (Inr (Continue ((frame_with_heap [42, 1, 42, 0] 1 [[2, 0, 42]])\<lparr>pc := 1\<rparr>)))"
proof -
  let ?s = "frame_with_heap [0, 1, 42, 0] 3 [[2, 0, 0]]"
  let ?s1 = "(frame_with_heap [0, 1, 42, 0] 0 [[2, 0, 42]])\<lparr>pc := 1\<rparr>"
  let ?s2 = "frame_with_heap [0, 1, 42, 0] 2 [[2, 0, 42]]"
  have h1: "code_at (method_of_code [i_iastore]) (pc ?s) = Inr i_iastore"
    by code_simp
  have h2: "on_top3 ?s 0 1 42"
    by code_simp
  have h3: "step no_call (class_of_main (method_of_code [i_iastore])) (method_of_code [i_iastore]) ?s =
              Some (Inr (Continue ?s1))"
    by code_simp
  have h4: "code_at (method_of_code [i_iaload]) (pc ?s2) = Inr i_iaload"
    by code_simp
  have h5: "on_top2 ?s2 0 1"
    by code_simp
  have h6: "element_slot (heap ?s2) 0 1 = element_slot (heap ?s1) 0 1"
    by code_simp
  have h7: "pop2_push ?s2 42 = (frame_with_heap [42, 1, 42, 0] 1 [[2, 0, 42]])\<lparr>pc := 1\<rparr>"
    by code_simp
  have h8: "heap ?s1 = [[2, 0, 42]]"
    by code_simp
  from iastore_then_iaload [OF h1 h2 h3, of "method_of_code [i_iaload]" ?s2 no_call
      "class_of_main (method_of_code [i_iaload])"] h4 h5 h6
  have "element_slot (heap ?s1) 0 1 = Inr 42 \<and>
        step no_call (class_of_main (method_of_code [i_iaload])) (method_of_code [i_iaload]) ?s2 =
          Some (Inr (Continue (pop2_push ?s2 42)))"
    by blast
  with h1 h2 h3 show ?thesis
    by (simp only: h7 h8 simp_thms)
qed

text \<open>
  C8. Let newarray run to completion with the nonnegative length \<open>n\<close> on top of the
  stack. Then the reference \<open>r\<close> on top of the stack is the one \<open>heap_add\<close> returned for
  the new buffer; an arraylength on \<open>r\<close> in a later frame whose heap holds the length
  slot unchanged pushes \<open>n\<close>; and for \<open>0 \<le> i < n\<close> an iaload of \<open>r\<close>, \<open>i\<close> in a later frame
  whose heap holds that slot unchanged pushes 0.
\<close>

theorem newarray_length_and_zeros:
  assumes "code_at m (pc s) = Inr i_newarray"
    and "on_top1 s n"
    and "0 \<le> sint n"
    and "length (heap s) < 2 ^ 31"
    and "step call cls m s = Some (Inr (Continue s1))"
    and "r = snd (heap_add (heap s) (n # replicate (nat (sint n)) 0))"
  shows "on_top1 s1 r \<and>
         heap s1 = fst (heap_add (heap s) (n # replicate (nat (sint n)) 0)) \<and>
         (code_at m2 (pc s2) = Inr i_arraylength \<and> on_top1 s2 r \<and>
          length_slot (heap s2) r = length_slot (heap s1) r \<longrightarrow>
            step call2 cls2 m2 s2 = Some (Inr (Continue (replace_top s2 n)))) \<and>
         (code_at m3 (pc s3) = Inr i_iaload \<and> on_top2 s3 r i \<and>
          0 \<le> sint i \<and> sint i < sint n \<and>
          element_slot (heap s3) r i = element_slot (heap s1) r i \<longrightarrow>
            step call3 cls3 m3 s3 = Some (Inr (Continue (pop2_push s3 0))))"
proof -
  let ?array = "n # replicate (nat (sint n)) 0"
  have r: "r = word_of_nat (length (heap s))"
    by (simp add: assms(6) heap_add_def)
  from assms(1,5) have ex: "exec_newarray s = Inr (Continue s1)"
    by (simp add: step_newarray)
  have "sint n \<noteq> 2 ^ 31 - 1"
    using exec_newarray_int_max [OF assms(2)] ex by auto
  moreover have "sint n < 2 ^ 31" using sint_lt [of n] by simp
  ultimately have "sint n < 2 ^ 31 - 1" by simp
  with ex have s1: "s1 = s\<lparr>operand_stack := (operand_stack s)[nat (stack_idx s - 1) := r],
                             heap := heap s @ [?array], pc := pc s + 2\<rparr>"
    by (simp add: exec_newarray_completes [OF assms(2,3)] r)
  have top: "on_top1 s1 r"
  proof -
    from assms(2) have "nat (stack_idx s - 1) < length (operand_stack s)"
      by (auto simp add: on_top1_def)
    with assms(2) show ?thesis
      by (simp add: s1 on_top1_def)
  qed
  have h: "heap s1 = fst (heap_add (heap s) ?array)"
    by (simp add: s1 heap_add_def)
  have g: "heap_get (heap s1) r = Inr ?array"
    by (simp add: s1 r heap_get_appended [OF assms(4)])
  have len: "length_slot (heap s1) r = Inr n"
    by (simp add: length_slot_def g array_get_def)
  have elt: "element_slot (heap s1) r i = Inr 0" if "0 \<le> sint i" and "sint i < sint n"
  proof -
    from that \<open>sint n < 2 ^ 31 - 1\<close> have "sint (i + 1) = sint i + 1"
      by (intro sint_succ32) simp
    moreover from that have "nat (sint i + 1) = Suc (nat (sint i))" by simp
    ultimately show ?thesis
      using that by (simp add: element_slot_def g array_get_def)
  qed
  show ?thesis
    using top h len elt
    by (auto simp add: step_arraylength step_iaload exec_arraylength_on_top1 exec_iaload_on_top2)
qed

theorem newarray_length_and_zeros_witness:
  "code_at (method_of_code [i_newarray, 10]) (pc (frame_with_heap [3, 0] 1 [])) = Inr i_newarray \<and>
   on_top1 (frame_with_heap [3, 0] 1 []) 3 \<and>
   0 \<le> sint (3 :: int32_t) \<and>
   length (heap (frame_with_heap [3, 0] 1 [])) < 2 ^ 31 \<and>
   step no_call (class_of_main (method_of_code [i_newarray, 10])) (method_of_code [i_newarray, 10])
       (frame_with_heap [3, 0] 1 []) =
     Some (Inr (Continue ((frame_with_heap [0, 0] 1 [[3, 0, 0, 0]])\<lparr>pc := 2\<rparr>))) \<and>
   0 = snd (heap_add [] [3, 0, 0, 0]) \<and>
   step no_call (class_of_main (method_of_code [i_arraylength])) (method_of_code [i_arraylength])
       (frame_with_heap [0, 0] 1 [[3, 0, 0, 0]]) =
     Some (Inr (Continue ((frame_with_heap [3, 0] 1 [[3, 0, 0, 0]])\<lparr>pc := 1\<rparr>))) \<and>
   step no_call (class_of_main (method_of_code [i_iaload])) (method_of_code [i_iaload])
       (frame_with_heap [0, 2] 2 [[3, 0, 0, 0]]) =
     Some (Inr (Continue ((frame_with_heap [0, 2] 1 [[3, 0, 0, 0]])\<lparr>pc := 1\<rparr>)))"
proof -
  let ?s = "frame_with_heap [3, 0] 1 []"
  let ?s1 = "(frame_with_heap [0, 0] 1 [[3, 0, 0, 0]])\<lparr>pc := 2\<rparr>"
  let ?s2 = "frame_with_heap [0, 0] 1 [[3, 0, 0, 0]]"
  let ?s3 = "frame_with_heap [0, 2] 2 [[3, 0, 0, 0]]"
  have h1: "code_at (method_of_code [i_newarray, 10]) (pc ?s) = Inr i_newarray"
    by (simp add: example_defs)
  have h2: "on_top1 ?s 3"
    by (simp add: example_defs)
  have h3: "0 \<le> sint (3 :: int32_t)"
    by simp
  have h4: "length (heap ?s) < 2 ^ 31"
    by (simp add: frame_with_heap_def frame_of_stack_def)
  have "sint (3 :: int32_t) < 2 ^ 31 - 1"
    by simp
  from exec_newarray_completes [OF h2 h3 this] have "exec_newarray ?s = Inr (Continue ?s1)"
    by (simp add: example_defs replicate_3)
  then have h5: "step no_call (class_of_main (method_of_code [i_newarray, 10]))
              (method_of_code [i_newarray, 10]) ?s = Some (Inr (Continue ?s1))"
    by (simp only: step_newarray [OF h1])
  have h6: "(0 :: int32_t) = snd (heap_add (heap ?s) (3 # replicate (nat (sint (3 :: int32_t))) 0))"
    by (simp add: example_defs replicate_3)
  have a1: "code_at (method_of_code [i_arraylength]) (pc ?s2) = Inr i_arraylength"
    by (simp add: example_defs)
  have a2: "on_top1 ?s2 0"
    by (simp add: example_defs)
  have a3: "length_slot (heap ?s2) 0 = length_slot (heap ?s1) 0"
    by (simp add: example_defs)
  have a4: "replace_top ?s2 3 = (frame_with_heap [3, 0] 1 [[3, 0, 0, 0]])\<lparr>pc := 1\<rparr>"
    by (simp add: example_defs)
  have b1: "code_at (method_of_code [i_iaload]) (pc ?s3) = Inr i_iaload"
    by (simp add: example_defs)
  have b2: "on_top2 ?s3 0 2"
    by (simp add: example_defs)
  have b3: "0 \<le> sint (2 :: int32_t) \<and> sint (2 :: int32_t) < sint (3 :: int32_t)"
    by simp
  have b4: "element_slot (heap ?s3) 0 2 = element_slot (heap ?s1) 0 2"
    by (simp add: example_defs)
  have b5: "pop2_push ?s3 0 = (frame_with_heap [0, 2] 1 [[3, 0, 0, 0]])\<lparr>pc := 1\<rparr>"
    by (simp add: example_defs)
  have h7: "(0 :: int32_t) = snd (heap_add [] [3, 0, 0, 0])"
    by (simp add: example_defs)
  from newarray_length_and_zeros [OF h1 h2 h3 h4 h5 h6,
      of "method_of_code [i_arraylength]" ?s2 no_call "class_of_main (method_of_code [i_arraylength])"
         "method_of_code [i_iaload]" ?s3 2 no_call "class_of_main (method_of_code [i_iaload])"]
    a1 a2 a3 b1 b2 b3 b4
  have "step no_call (class_of_main (method_of_code [i_arraylength])) (method_of_code [i_arraylength]) ?s2 =
          Some (Inr (Continue (replace_top ?s2 3))) \<and>
        step no_call (class_of_main (method_of_code [i_iaload])) (method_of_code [i_iaload]) ?s3 =
          Some (Inr (Continue (pop2_push ?s3 0)))"
    by blast
  with h1 h2 h3 h4 h5 h7 show ?thesis
    by (simp only: a4 b5 simp_thms)
qed

text \<open>
  C9. iastore does not check the index: with \<open>r\<close>, \<open>-1\<close>, \<open>v\<close> on the stack, where \<open>r\<close>
  refers to an array object whose length slot holds \<open>n\<close>, it writes \<open>v\<close> to slot 0 of
  the object, and an arraylength on \<open>r\<close> afterwards pushes \<open>v\<close>.
\<close>

theorem iastore_minus_one_overwrites_length:
  assumes "code_at m (pc s) = Inr i_iastore"
    and "on_top3 s r (- 1) v"
    and "heap_get (heap s) r = Inr (n # elems)"
  shows "step call cls m s =
           Some (Inr (Continue (s\<lparr>heap := (heap s)[nat (sint r) := v # elems],
                                   stack_idx := stack_idx s - 3, pc := pc s + 1\<rparr>))) \<and>
         (code_at m2 (pc s2) = Inr i_arraylength \<and> on_top1 s2 r \<and>
          length_slot (heap s2) r = length_slot ((heap s)[nat (sint r) := v # elems]) r \<longrightarrow>
            step call2 cls2 m2 s2 = Some (Inr (Continue (replace_top s2 v))))"
proof -
  have w: "array_set (n # elems) (sint (- 1 + 1 :: int32_t)) v = Inr (v # elems)"
    by (simp add: array_set_def)
  have "exec_iastore s =
          Inr (Continue (s\<lparr>heap := (heap s)[nat (sint r) := v # elems],
                            stack_idx := stack_idx s - 3, pc := pc s + 1\<rparr>))"
    by (simp only: exec_iastore_on_top3 [OF assms(2)] assms(3) ebind_Inr w)
  moreover have "length_slot ((heap s)[nat (sint r) := v # elems]) r = Inr v"
    using length_slot_update [OF assms(3), of v "v # elems"] by (simp add: array_set_def)
  ultimately show ?thesis
    using assms(1)
    by (auto simp add: step_iastore step_arraylength exec_arraylength_on_top1)
qed

theorem iastore_minus_one_overwrites_length_witness:
  "code_at (method_of_code [i_iastore]) (pc (frame_with_heap [0, - 1, 42] 3 [[3, 0, 0, 0]])) =
     Inr i_iastore \<and>
   on_top3 (frame_with_heap [0, - 1, 42] 3 [[3, 0, 0, 0]]) 0 (- 1) 42 \<and>
   heap_get (heap (frame_with_heap [0, - 1, 42] 3 [[3, 0, 0, 0]])) 0 = Inr [3, 0, 0, 0] \<and>
   step no_call (class_of_main (method_of_code [i_iastore])) (method_of_code [i_iastore])
       (frame_with_heap [0, - 1, 42] 3 [[3, 0, 0, 0]]) =
     Some (Inr (Continue ((frame_with_heap [0, - 1, 42] 0 [[42, 0, 0, 0]])\<lparr>pc := 1\<rparr>))) \<and>
   step no_call (class_of_main (method_of_code [i_arraylength])) (method_of_code [i_arraylength])
       (frame_with_heap [0, - 1, 42] 1 [[42, 0, 0, 0]]) =
     Some (Inr (Continue ((frame_with_heap [42, - 1, 42] 1 [[42, 0, 0, 0]])\<lparr>pc := 1\<rparr>)))"
proof -
  let ?s = "frame_with_heap [0, - 1, 42] 3 [[3, 0, 0, 0]]"
  let ?s2 = "frame_with_heap [0, - 1, 42] 1 [[42, 0, 0, 0]]"
  have h1: "code_at (method_of_code [i_iastore]) (pc ?s) = Inr i_iastore"
    by (simp add: example_defs)
  have h2: "on_top3 ?s 0 (- 1) 42"
    by (simp add: example_defs)
  have h3: "heap_get (heap ?s) 0 = Inr [3, 0, 0, 0]"
    by (simp add: example_defs)
  have a1: "code_at (method_of_code [i_arraylength]) (pc ?s2) = Inr i_arraylength"
    by (simp add: example_defs)
  have a2: "on_top1 ?s2 0"
    by (simp add: example_defs)
  have a3: "length_slot (heap ?s2) 0 = length_slot ((heap ?s)[nat (sint (0 :: int32_t)) := [42, 0, 0, 0]]) 0"
    by (simp add: example_defs)
  have a4: "replace_top ?s2 42 = (frame_with_heap [42, - 1, 42] 1 [[42, 0, 0, 0]])\<lparr>pc := 1\<rparr>"
    by (simp add: example_defs)
  have a5: "?s\<lparr>heap := (heap ?s)[nat (sint (0 :: int32_t)) := [42, 0, 0, 0]],
              stack_idx := stack_idx ?s - 3, pc := pc ?s + 1\<rparr> =
            (frame_with_heap [0, - 1, 42] 0 [[42, 0, 0, 0]])\<lparr>pc := 1\<rparr>"
    by (simp add: example_defs)
  from iastore_minus_one_overwrites_length [OF h1 h2 h3,
      of no_call "class_of_main (method_of_code [i_iastore])"
         "method_of_code [i_arraylength]" ?s2 no_call "class_of_main (method_of_code [i_arraylength])"]
    a1 a2 a3
  have "step no_call (class_of_main (method_of_code [i_iastore])) (method_of_code [i_iastore]) ?s =
          Some (Inr (Continue (?s\<lparr>heap := (heap ?s)[nat (sint (0 :: int32_t)) := [42, 0, 0, 0]],
              stack_idx := stack_idx ?s - 3, pc := pc ?s + 1\<rparr>))) \<and>
        step no_call (class_of_main (method_of_code [i_arraylength])) (method_of_code [i_arraylength]) ?s2 =
          Some (Inr (Continue (replace_top ?s2 42)))"
    by blast
  with h1 h2 h3 show ?thesis
    by (simp only: a4 a5 simp_thms)
qed

text \<open>The whole sequence in one method: the length read after the store is 42, not 10.\<close>

lemma overwrite_length_main_returns_42:
  "execute 8 overwrite_length_main [0, 0, 0, 0] (class_of_main overwrite_length_main) heap_init [] =
     Some (Inr (\<lparr>has_value = True, ret_value = 42\<rparr>,
                \<lparr>pc = 10, operand_stack = [42, 0, - 1, 42], stack_idx = 0, locals = [0, 0, 0, 0],
                 heap = [[42, 0, 0, 0, 0, 0, 0, 0, 0, 0, 0]], stdout = []\<rparr>))"
  by code_simp

section \<open>Static invocation\<close>

lemma sint_u2_small: "unat (w :: u2) < 2 ^ 15 \<Longrightarrow> sint w = int (unat w)"
proof -
  assume a: "unat w < 2 ^ 15"
  have u: "uint w = int (unat w)" by (rule uint_nat)
  from a have b: "int (unat w) < 2 ^ 15"
    by (metis of_nat_less_iff of_nat_numeral of_nat_power)
  have "sint w = signed_take_bit 15 (uint w)"
    by (simp add: sint_uint)
  also have "\<dots> = uint w"
  proof (rule signed_take_bit_int_eq_self)
    show "- (2 ^ 15) \<le> uint w" by (rule order_trans [of _ 0]) simp_all
    show "uint w < 2 ^ 15" using b by (simp only: u)
  qed
  finally show ?thesis by (simp only: u)
qed

lemma pop_params_pops:
  "int k \<le> sp \<Longrightarrow> sp \<le> int (length stk) \<Longrightarrow> k \<le> length cl \<Longrightarrow>
   pop_params k stk sp cl = Inr (take k (drop (nat sp - k) stk) @ drop k cl, sp - int k)"
proof (induction k arbitrary: sp cl)
  case 0
  then show ?case by simp
next
  case (Suc k)
  let ?x = "stk ! nat (sp - 1)"
  let ?d = "nat sp - Suc k"
  from Suc.prems have g: "array_get stk (sp - 1) = Inr ?x"
    by (simp add: array_get_in)
  from Suc.prems have p: "array_set cl (int k) ?x = Inr (cl[k := ?x])"
    by (simp add: array_set_in)
  from Suc.prems have d: "nat (sp - 1) - k = ?d" by simp
  have "pop_params k stk (sp - 1) (cl[k := ?x]) =
          Inr (take k (drop (nat (sp - 1) - k) stk) @ drop k (cl[k := ?x]), sp - 1 - int k)"
    using Suc.prems by (intro Suc.IH) simp_all
  moreover have "drop k (cl[k := ?x]) = ?x # drop (Suc k) cl"
    using Suc.prems by (simp add: Cons_nth_drop_Suc [symmetric])
  moreover have "take (Suc k) (drop ?d stk) = take k (drop ?d stk) @ [?x]"
  proof -
    from Suc.prems have "k < length (drop ?d stk)" by simp
    moreover from Suc.prems have "?d + k = nat (sp - 1)" by simp
    ultimately show ?thesis
      by (simp add: take_Suc_conv_app_nth)
  qed
  ultimately show ?case
    by (simp add: g p d)
qed

lemma invokestatic_args_pops:
  assumes "code_at m (pc s + 1) = Inr b1" and "code_at m (pc s + 2) = Inr b2"
    and "find_method_from_index cls (b1_b2 b1 b2) = Some callee"
    and "unat (get_number_of_parameters cls callee) = k" and "k < 2 ^ 15"
    and "k \<le> unat (max_locals (method_code callee))"
    and "int k \<le> stack_idx s" and "stack_idx s \<le> int (length (operand_stack s))"
  shows "invokestatic_args cls m s =
           Inr (callee,
                take k (drop (nat (stack_idx s) - k) (operand_stack s)) @
                  replicate (unat (max_locals (method_code callee)) - k) 0,
                stack_idx s - int k)"
proof -
  have n: "nat (sint (get_number_of_parameters cls callee)) = k"
    using assms(4,5) by (simp add: sint_u2_small)
  have "pop_params k (operand_stack s) (stack_idx s)
          (replicate (unat (max_locals (method_code callee))) 0) =
        Inr (take k (drop (nat (stack_idx s) - k) (operand_stack s)) @
               drop k (replicate (unat (max_locals (method_code callee))) 0),
             stack_idx s - int k)"
    using assms(6,7,8) by (intro pop_params_pops) simp_all
  then show ?thesis
    by (simp add: invokestatic_args_def assms(1,2,3) n)
qed

text \<open>
  Let the index the code computes resolve to a callee of \<open>k\<close> parameters, with at least
  \<open>k\<close> values on the caller's stack, and let the recursive \<open>execute\<close> of the callee
  return. Then the callee ran on locals of \<open>max_locals\<close> slots whose slot \<open>i < k\<close> holds
  the \<open>i\<close>-th of the top \<open>k\<close> stack values counted from the deepest (the leftmost
  parameter) and whose other slots are 0; the caller's \<open>stack_idx\<close> drops by \<open>k\<close>; the
  returned value is pushed if and only if there is one; and \<open>pc\<close> advances by 3.
  (\<open>k\<close> is read into an \<open>int16_t\<close>, hence \<open>k < 2^15\<close>; the class-file format allows at
  most 255 parameters.)
\<close>

theorem invokestatic_passes_arguments:
  assumes "code_at m (pc s) = Inr i_invokestatic"
    and "code_at m (pc s + 1) = Inr b1" and "code_at m (pc s + 2) = Inr b2"
    and "find_method_from_index cls (b1_b2 b1 b2) = Some callee"
    and "unat (get_number_of_parameters cls callee) = k" and "k < 2 ^ 15"
    and "k \<le> unat (max_locals (method_code callee))"
    and "int k \<le> stack_idx s" and "stack_idx s \<le> int (length (operand_stack s))"
    and "callee_locals =
           take k (drop (nat (stack_idx s) - k) (operand_stack s)) @
             replicate (unat (max_locals (method_code callee)) - k) 0"
    and "execute n callee callee_locals cls (heap s) (stdout s) = Some (Inr (ret, callee_final))"
    and "has_value ret \<longrightarrow> stack_idx s - int k < int (length (operand_stack s))"
  shows "length callee_locals = unat (max_locals (method_code callee)) \<and>
         (\<forall>i<k. callee_locals ! i = operand_stack s ! (nat (stack_idx s) - k + i)) \<and>
         (\<forall>i. k \<le> i \<and> i < unat (max_locals (method_code callee)) \<longrightarrow> callee_locals ! i = 0) \<and>
         invokestatic_args cls m s = Inr (callee, callee_locals, stack_idx s - int k) \<and>
         step (\<lambda>callee ls h out. execute n callee ls cls h out) cls m s =
           Some (Inr (Continue
             (if has_value ret
              then s\<lparr>operand_stack := (operand_stack s)[nat (stack_idx s - int k) := ret_value ret],
                     stack_idx := stack_idx s - int k + 1, pc := pc s + 3,
                     heap := heap callee_final, stdout := stdout callee_final\<rparr>
              else s\<lparr>stack_idx := stack_idx s - int k, pc := pc s + 3,
                     heap := heap callee_final, stdout := stdout callee_final\<rparr>)))"
proof -
  let ?ml = "unat (max_locals (method_code callee))"
  let ?args = "take k (drop (nat (stack_idx s) - k) (operand_stack s))"
  from assms(8,9) have la: "length ?args = k" by simp
  with assms(7,10) have len: "length callee_locals = ?ml" by simp
  have params: "callee_locals ! i = operand_stack s ! (nat (stack_idx s) - k + i)" if "i < k" for i
    using that la assms(8,9) by (simp add: assms(10) nth_append)
  have zeros: "callee_locals ! i = 0" if "k \<le> i" and "i < ?ml" for i
    using that la by (simp add: assms(10) nth_append)
  have args: "invokestatic_args cls m s = Inr (callee, callee_locals, stack_idx s - int k)"
    using invokestatic_args_pops [OF assms(2-9)] by (simp only: assms(10))
  have "0 \<le> stack_idx s - int k" using assms(8) by simp
  then have push: "has_value ret \<Longrightarrow>
      array_set (operand_stack s) (stack_idx s - int k) (ret_value ret) =
        Inr ((operand_stack s)[nat (stack_idx s - int k) := ret_value ret])"
    using assms(12) by (simp add: array_set_in)
  have "step (\<lambda>callee ls h out. execute n callee ls cls h out) cls m s =
          Some (invokestatic_ret s (stack_idx s - int k) ret callee_final)"
    by (simp add: step_invokestatic [OF assms(1)] exec_invokestatic_def args assms(11))
  with len params zeros args push show ?thesis
    by (simp add: invokestatic_ret_def)
qed

lemma callee_sub_runs:
  "execute 4 callee_sub [10, 3, 0, 0] (class_with_callee callee_sub 2) [] [] =
     Some (Inr (\<lparr>has_value = True, ret_value = 7\<rparr>,
                \<lparr>pc = 3, operand_stack = [7, 3, 0, 0], stack_idx = 0, locals = [10, 3, 0, 0],
                 heap = [], stdout = []\<rparr>))"
  by code_simp

theorem invokestatic_passes_arguments_example:
  "code_at (method_of_code [i_invokestatic, 0x00, 0x02]) (pc (frame_of_stack [10, 3, 0, 0] 2)) =
     Inr i_invokestatic \<and>
   find_method_from_index (class_with_callee callee_sub 2) (b1_b2 0x00 0x02) = Some callee_sub \<and>
   unat (get_number_of_parameters (class_with_callee callee_sub 2) callee_sub) = 2 \<and>
   execute 4 callee_sub [10, 3, 0, 0] (class_with_callee callee_sub 2) [] [] =
     Some (Inr (\<lparr>has_value = True, ret_value = 7\<rparr>,
                \<lparr>pc = 3, operand_stack = [7, 3, 0, 0], stack_idx = 0, locals = [10, 3, 0, 0],
                 heap = [], stdout = []\<rparr>)) \<and>
   invokestatic_args (class_with_callee callee_sub 2) (method_of_code [i_invokestatic, 0x00, 0x02])
       (frame_of_stack [10, 3, 0, 0] 2) = Inr (callee_sub, [10, 3, 0, 0], 0) \<and>
   step (\<lambda>callee ls h out. execute 4 callee ls (class_with_callee callee_sub 2) h out)
       (class_with_callee callee_sub 2) (method_of_code [i_invokestatic, 0x00, 0x02])
       (frame_of_stack [10, 3, 0, 0] 2) =
     Some (Inr (Continue ((frame_of_stack [7, 3, 0, 0] 1)\<lparr>pc := 3\<rparr>)))"
proof -
  let ?m = "method_of_code [i_invokestatic, 0x00, 0x02]"
  let ?s = "frame_of_stack [10, 3, 0, 0] 2"
  let ?cls = "class_with_callee callee_sub 2"
  let ?ret = "\<lparr>has_value = True, ret_value = 7 :: int32_t\<rparr>"
  let ?final = "\<lparr>pc = 3, operand_stack = [7, 3, 0, 0], stack_idx = 0, locals = [10, 3, 0, 0],
                 heap = [], stdout = []\<rparr>"
  have h1: "code_at ?m (pc ?s) = Inr i_invokestatic"
    by (simp add: example_defs)
  have h2: "code_at ?m (pc ?s + 1) = Inr 0x00"
    by (simp add: example_defs)
  have h3: "code_at ?m (pc ?s + 2) = Inr 0x02"
    by (simp add: example_defs)
  have b: "b1_b2 0x00 0x02 = 2"
    by (simp add: b1_b2_def)
  have h4: "find_method_from_index ?cls (b1_b2 0x00 0x02) = Some callee_sub"
    by (simp add: class_with_callee_def b)
  have h5: "unat (get_number_of_parameters ?cls callee_sub) = 2"
    by (simp add: class_with_callee_def)
  have h6: "(2 :: nat) < 2 ^ 15"
    by simp
  have h7: "2 \<le> unat (max_locals (method_code callee_sub))"
    by (simp add: callee_sub_def method_of_code_def)
  have h8: "int 2 \<le> stack_idx ?s"
    by (simp add: example_defs)
  have h9: "stack_idx ?s \<le> int (length (operand_stack ?s))"
    by (simp add: example_defs)
  have h10: "[10, 3, 0, 0] =
           take 2 (drop (nat (stack_idx ?s) - 2) (operand_stack ?s)) @
             replicate (unat (max_locals (method_code callee_sub)) - 2) 0"
  proof -
    have "unat (max_locals (method_code callee_sub)) = 4"
      by (simp add: callee_sub_def method_of_code_def)
    moreover have "replicate 2 (0 :: int32_t) = [0, 0]"
      by (simp add: numeral_2_eq_2)
    moreover have "take 2 [10, 3, 0, 0 :: int32_t] = [10, 3]"
      by (simp add: numeral_2_eq_2)
    ultimately show ?thesis
      by (simp add: example_defs)
  qed
  have h11: "execute 4 callee_sub [10, 3, 0, 0] ?cls (heap ?s) (stdout ?s) = Some (Inr (?ret, ?final))"
    using callee_sub_runs by (simp add: example_defs)
  have h12: "has_value ?ret \<longrightarrow> stack_idx ?s - int 2 < int (length (operand_stack ?s))"
    by (simp add: example_defs)
  have r: "(if has_value ?ret
            then ?s\<lparr>operand_stack := (operand_stack ?s)[nat (stack_idx ?s - int 2) := ret_value ?ret],
                   stack_idx := stack_idx ?s - int 2 + 1, pc := pc ?s + 3,
                   heap := heap ?final, stdout := stdout ?final\<rparr>
            else ?s\<lparr>stack_idx := stack_idx ?s - int 2, pc := pc ?s + 3,
                   heap := heap ?final, stdout := stdout ?final\<rparr>) =
           (frame_of_stack [7, 3, 0, 0] 1)\<lparr>pc := 3\<rparr>"
    by (simp add: example_defs)
  have z: "stack_idx ?s - int 2 = 0"
    by (simp add: example_defs)
  note t = invokestatic_passes_arguments [OF h1 h2 h3 h4 h5 h6 h7 h8 h9 h10 h11 h12]
  from t have a: "invokestatic_args ?cls ?m ?s = Inr (callee_sub, [10, 3, 0, 0], stack_idx ?s - int 2)"
    by blast
  from t have st: "step (\<lambda>callee ls h out. execute 4 callee ls ?cls h out) ?cls ?m ?s =
      Some (Inr (Continue
        (if has_value ?ret
         then ?s\<lparr>operand_stack := (operand_stack ?s)[nat (stack_idx ?s - int 2) := ret_value ?ret],
                stack_idx := stack_idx ?s - int 2 + 1, pc := pc ?s + 3,
                heap := heap ?final, stdout := stdout ?final\<rparr>
         else ?s\<lparr>stack_idx := stack_idx ?s - int 2, pc := pc ?s + 3,
                heap := heap ?final, stdout := stdout ?final\<rparr>)))"
    by blast
  from a have a': "invokestatic_args ?cls ?m ?s = Inr (callee_sub, [10, 3, 0, 0], 0)"
    by (simp only: z)
  from st have st': "step (\<lambda>callee ls h out. execute 4 callee ls ?cls h out) ?cls ?m ?s =
          Some (Inr (Continue ((frame_of_stack [7, 3, 0, 0] 1)\<lparr>pc := 3\<rparr>)))"
    by (simp only: r)
  from a' st'
  have "invokestatic_args ?cls ?m ?s = Inr (callee_sub, [10, 3, 0, 0], 0) \<and>
        step (\<lambda>callee ls h out. execute 4 callee ls ?cls h out) ?cls ?m ?s =
          Some (Inr (Continue ((frame_of_stack [7, 3, 0, 0] 1)\<lparr>pc := 3\<rparr>)))"
    by (rule conjI)
  with h1 h4 h5 callee_sub_runs show ?thesis
    by simp
qed

text \<open>
  The index the code computes is \<open>(b1 << 8) | b2\<close> with the low byte sign-extended, as
  for the branches. It is the index of the class-file format exactly when the low byte
  has its high bit clear.
\<close>

lemma index_low_byte_positive:
  "\<not> bit b2 7 \<Longrightarrow> b1_b2 b1 b2 = spec_index b1 b2"
  apply (simp add: b1_b2_def spec_index_def)
  apply (rule bit_word_eqI)
  apply (auto simp add: bit_simps min_def dest: bit_imp_le_length split: if_splits)
  subgoal for n using bit_u1_top [of b2 n] by simp
  subgoal for n using bit_u1_top [of b2 n] by simp
  done

lemma index_agrees_iff:
  "b1_b2 b1 b2 = spec_index b1 b2 \<longleftrightarrow> \<not> bit b2 7"
proof
  assume e: "b1_b2 b1 b2 = spec_index b1 b2"
  show "\<not> bit b2 7"
  proof
    assume "bit b2 7"
    then have "bit (b1_b2 b1 b2) 31"
      by (simp add: b1_b2_def bit_simps)
    moreover have "\<not> bit (spec_index b1 b2) 31"
      by (auto simp add: spec_index_def bit_simps dest: bit_imp_le_length)
    ultimately show False by (simp add: e)
  qed
next
  assume "\<not> bit b2 7"
  then show "b1_b2 b1 b2 = spec_index b1 b2"
    by (rule index_low_byte_positive)
qed

text \<open>
  C2. An invokestatic with the index bytes \<open>0x00 0x80\<close> in a class that resolves the
  index 128 to \<open>callee_sub\<close>, with the two arguments 10 and 3 on the stack: the
  instruction's callee is \<open>callee_sub\<close>, which would be run on the locals 10, 3 and
  return 7. The code looks up the index \<open>-128\<close>, finds no method and dereferences the
  null pointer; nothing is popped and no callee runs.
\<close>

theorem invokestatic_index_128_not_resolved:
  "find_method_from_index class_with_callee_at_128 (spec_index 0x00 0x80) = Some callee_sub \<and>
   b1_b2 0x00 0x80 = - 128 \<and>
   step (\<lambda>callee ls h out. execute 4 callee ls class_with_callee_at_128 h out)
       class_with_callee_at_128 (method_of_code [i_invokestatic, 0x00, 0x80])
       (frame_of_stack [10, 3, 0, 0] 2) = Some (Inl Undefined_Behaviour)"
proof -
  let ?m = "method_of_code [i_invokestatic, 0x00, 0x80]"
  let ?s = "frame_of_stack [10, 3, 0, 0] 2"
  have i: "spec_index 0x00 0x80 = 128"
    by (simp add: spec_index_def)
  have c: "code_at ?m (pc ?s) = Inr i_invokestatic"
    by (simp add: example_defs)
  have "code_at ?m (pc ?s + 1) = Inr 0x00" "code_at ?m (pc ?s + 2) = Inr 0x80"
    by (simp_all add: example_defs)
  then have "invokestatic_args class_with_callee_at_128 ?m ?s = Inl Undefined_Behaviour"
    by (simp add: invokestatic_args_def b1_b2_0_128 class_with_callee_at_128_def)
  then show ?thesis
    by (simp add: step_invokestatic [OF c] exec_invokestatic_def b1_b2_0_128 i
          class_with_callee_at_128_def)
qed

section \<open>The driver's assertion\<close>

text \<open>
  C10. If the main method returns a value (which only ireturn and areturn produce),
  \<open>main\<close> fails the assertion \<open>!result.has_value\<close>; it does not exit with status 0.
  This holds for every amount of fuel that lets the main method return.
\<close>

theorem main_asserts_void:
  assumes "find_method cls MAIN_METHOD MAIN_DESCRIPTOR = Some main_method"
    and "execute n main_method (replicate (unat (max_locals (method_code main_method))) 0)
           cls heap_init [] = Some (Inr (result, s))"
    and "has_value result"
    and "n \<le> n'"
  shows "main n' 2 cls = Some (Inl Assertion_Failure)"
proof -
  from assms(2,4)
  have "execute n' main_method (replicate (unat (max_locals (method_code main_method))) 0)
          cls heap_init [] = Some (Inr (result, s))"
    by (rule execute_fuel_mono)
  with assms(1,3) show ?thesis
    by (simp add: main_def)
qed

lemma ireturn_main_runs:
  "execute 2 ireturn_main (replicate (unat (max_locals (method_code ireturn_main))) 0)
     (class_of_main ireturn_main) heap_init [] =
   Some (Inr (\<lparr>has_value = True, ret_value = 0\<rparr>,
              \<lparr>pc = 1, operand_stack = [0, 0, 0, 0], stack_idx = 0, locals = [0, 0, 0, 0],
               heap = [], stdout = []\<rparr>))"
  by code_simp

theorem main_asserts_void_witness:
  "find_method (class_of_main ireturn_main) MAIN_METHOD MAIN_DESCRIPTOR = Some ireturn_main \<and>
   execute 2 ireturn_main (replicate (unat (max_locals (method_code ireturn_main))) 0)
     (class_of_main ireturn_main) heap_init [] =
   Some (Inr (\<lparr>has_value = True, ret_value = 0\<rparr>,
              \<lparr>pc = 1, operand_stack = [0, 0, 0, 0], stack_idx = 0, locals = [0, 0, 0, 0],
               heap = [], stdout = []\<rparr>)) \<and>
   has_value \<lparr>has_value = True, ret_value = 0\<rparr> \<and>
   (2 :: nat) \<le> 5 \<and>
   main 5 2 (class_of_main ireturn_main) = Some (Inl Assertion_Failure)"
proof -
  have f: "find_method (class_of_main ireturn_main) MAIN_METHOD MAIN_DESCRIPTOR = Some ireturn_main"
    by (simp add: class_of_main_def)
  have v: "has_value \<lparr>has_value = True, ret_value = 0\<rparr>"
    by simp
  have l: "(2 :: nat) \<le> 5"
    by simp
  show ?thesis
    using f ireturn_main_runs v l main_asserts_void [OF f ireturn_main_runs v l]
    by simp
qed

end
